theory Spec2Isabelle
  imports Complex_Main "HOL-Library.Word"
begin

section \<open>Errors\<close>

text \<open>
  Every \<^verbatim>\<open>raise\<close> and every failing \<^verbatim>\<open>assert\<close> of the
  Python source is a value of this type; a function that can raise returns
  \<open>error + 'a\<close>, with \<open>Inl\<close> for the error.
\<close>

datatype error =
    RuntimeError
  | AssertionError
  | RequestedKeyNotProvided
  | KeyError
  | ValueError
  | ZeroDivisionError
  | TypeError
  | AttributeError
  | IndexError
  | NameError
  | UpstreamError

section \<open>Coordinates and regions of interest\<close>

text \<open>
  Modelled from the spec: \<^verbatim>\<open>gunpowder.coordinate.Coordinate\<close> and
  \<^verbatim>\<open>gunpowder.roi.Roi\<close> are imported by the source files but are not
  among them. The spec describes a Coordinate as an ordered tuple of signed integers
  with elementwise \<open>+\<close>, \<open>-\<close>, \<open>*\<close> and comparisons, and a Roi as
  \<open>(offset, shape)\<close> with \<open>begin = offset\<close>, \<open>end = offset + shape\<close>,
  \<open>shift\<close>, \<open>grow\<close>, \<open>intersect\<close>, \<open>contains\<close>, division and
  \<open>size() =\<close> product of the shape.

  \<^verbatim>\<open>RandomLocation.prepare\<close> fixes three spatial dimensions (it grows by
  \<^verbatim>\<open>(0,0,0)\<close> and subtracts \<^verbatim>\<open>Coordinate((2,2,2))\<close>), so a
  coordinate is a triple of integers here.
\<close>

type_synonym Coordinate = "int \<times> int \<times> int"

fun coord_add :: "Coordinate \<Rightarrow> Coordinate \<Rightarrow> Coordinate" where
  "coord_add (a1, a2, a3) (b1, b2, b3) = (a1 + b1, a2 + b2, a3 + b3)"

fun coord_sub :: "Coordinate \<Rightarrow> Coordinate \<Rightarrow> Coordinate" where
  "coord_sub (a1, a2, a3) (b1, b2, b3) = (a1 - b1, a2 - b2, a3 - b3)"

fun coord_neg :: "Coordinate \<Rightarrow> Coordinate" where
  "coord_neg (a1, a2, a3) = (- a1, - a2, - a3)"

fun coord_mul :: "Coordinate \<Rightarrow> Coordinate \<Rightarrow> Coordinate" where
  "coord_mul (a1, a2, a3) (b1, b2, b3) = (a1 * b1, a2 * b2, a3 * b3)"

text \<open>Python's integer division of coordinates rounds towards minus infinity, as
  \<open>div\<close> on \<open>int\<close> does; a zero divisor raises.\<close>

fun coord_div :: "Coordinate \<Rightarrow> Coordinate \<Rightarrow> error + Coordinate" where
  "coord_div (a1, a2, a3) (b1, b2, b3) =
     (if b1 = 0 \<or> b2 = 0 \<or> b3 = 0 then Inl ZeroDivisionError
      else Inr (a1 div b1, a2 div b2, a3 div b3))"

fun coord_le :: "Coordinate \<Rightarrow> Coordinate \<Rightarrow> bool" where
  "coord_le (a1, a2, a3) (b1, b2, b3) = (a1 \<le> b1 \<and> a2 \<le> b2 \<and> a3 \<le> b3)"

fun coord_less :: "Coordinate \<Rightarrow> Coordinate \<Rightarrow> bool" where
  "coord_less (a1, a2, a3) (b1, b2, b3) = (a1 < b1 \<and> a2 < b2 \<and> a3 < b3)"

fun coord_max :: "Coordinate \<Rightarrow> Coordinate \<Rightarrow> Coordinate" where
  "coord_max (a1, a2, a3) (b1, b2, b3) = (max a1 b1, max a2 b2, max a3 b3)"

fun coord_min :: "Coordinate \<Rightarrow> Coordinate \<Rightarrow> Coordinate" where
  "coord_min (a1, a2, a3) (b1, b2, b3) = (min a1 b1, min a2 b2, min a3 b3)"

fun coord_lcm :: "Coordinate \<Rightarrow> Coordinate \<Rightarrow> Coordinate" where
  "coord_lcm (a1, a2, a3) (b1, b2, b3) = (lcm a1 b1, lcm a2 b2, lcm a3 b3)"

fun coord_dvd :: "Coordinate \<Rightarrow> Coordinate \<Rightarrow> bool" where
  "coord_dvd (a1, a2, a3) (b1, b2, b3) = (a1 dvd b1 \<and> a2 dvd b2 \<and> a3 dvd b3)"

record Roi =
  offset :: Coordinate
  shape :: Coordinate

definition get_begin :: "Roi \<Rightarrow> Coordinate" where
  "get_begin r = offset r"

definition get_end :: "Roi \<Rightarrow> Coordinate" where
  "get_end r = coord_add (offset r) (shape r)"

definition shift :: "Roi \<Rightarrow> Coordinate \<Rightarrow> Roi" where
  "shift r by = \<lparr>offset = coord_add (offset r) by, shape = shape r\<rparr>"

definition grow :: "Roi \<Rightarrow> Coordinate \<Rightarrow> Coordinate \<Rightarrow> Roi" where
  "grow r amount_neg amount_pos =
     \<lparr>offset = coord_sub (offset r) amount_neg,
      shape = coord_add (coord_add (shape r) amount_neg) amount_pos\<rparr>"

text \<open>The overlap of two regions; where they do not overlap the shape has a zero or
  negative component (section 4.4 of the spec).\<close>

definition intersect :: "Roi \<Rightarrow> Roi \<Rightarrow> Roi" where
  "intersect a b =
     (let b0 = coord_max (get_begin a) (get_begin b);
          e0 = coord_min (get_end a) (get_end b)
      in \<lparr>offset = b0, shape = coord_sub e0 b0\<rparr>)"

definition contains :: "Roi \<Rightarrow> Coordinate \<Rightarrow> bool" where
  "contains r p = (coord_le (get_begin r) p \<and> coord_less p (get_end r))"

definition contains_roi :: "Roi \<Rightarrow> Roi \<Rightarrow> bool" where
  "contains_roi r other =
     (coord_le (get_begin r) (get_begin other) \<and> coord_le (get_end other) (get_end r))"

fun coord_prod :: "Coordinate \<Rightarrow> int" where
  "coord_prod (a1, a2, a3) = a1 * a2 * a3"

definition roi_size :: "Roi \<Rightarrow> int" where
  "roi_size r = coord_prod (shape r)"

definition roi_div :: "Roi \<Rightarrow> Coordinate \<Rightarrow> error + Roi" where
  "roi_div r c =
     (case coord_div (offset r) c of
        Inl e \<Rightarrow> Inl e
      | Inr off \<Rightarrow>
          (case coord_div (shape r) c of
             Inl e \<Rightarrow> Inl e
           | Inr sh \<Rightarrow> Inr \<lparr>offset = off, shape = sh\<rparr>))"

definition roi_sub :: "Roi \<Rightarrow> Coordinate \<Rightarrow> Roi" where
  "roi_sub r c = shift r (coord_neg c)"

section \<open>Specs, requests, batches and the upstream provider\<close>

text \<open>
  Modelled from the spec: the spec classes, \<^verbatim>\<open>BatchRequest\<close>, the batch and
  \<^verbatim>\<open>BatchFilter\<close> are not among the source files. A spec holds a Roi or
  \<^verbatim>\<open>None\<close> and, for an array, a voxel size. A provider spec and a request
  map array keys and point-set keys to specs (\<^verbatim>\<open>array_specs\<close>,
  \<^verbatim>\<open>points_specs\<close>); they are association lists, in the order in which
  \<^verbatim>\<open>items()\<close> walks them, array keys first. A batch maps the same keys
  to arrays and point sets, each with its spec and its data; the data of a point set
  maps point ids to locations.
\<close>

record Spec =
  roi :: "Roi option"
  voxel_size :: "Coordinate option"

record ProviderSpec =
  array_specs :: "(string \<times> Spec) list"
  points_specs :: "(string \<times> Spec) list"

type_synonym BatchRequest = ProviderSpec

datatype key = ArrayKey string | PointsKey string

definition items :: "ProviderSpec \<Rightarrow> (key \<times> Spec) list" where
  "items s =
     map (\<lambda>(k, v). (ArrayKey k, v)) (array_specs s) @
     map (\<lambda>(k, v). (PointsKey k, v)) (points_specs s)"

text \<open>\<^verbatim>\<open>identifier in spec\<close> and \<^verbatim>\<open>spec[identifier]\<close>.\<close>

fun lookup_spec :: "ProviderSpec \<Rightarrow> key \<Rightarrow> Spec option" where
  "lookup_spec s (ArrayKey k) = map_of (array_specs s) k"
| "lookup_spec s (PointsKey k) = map_of (points_specs s) k"

record 'd Array =
  spec :: Spec
  data :: 'd

type_synonym Points = "((nat \<times> Coordinate) list) Array"

record 'd Batch =
  arrays :: "string \<rightharpoonup> 'd Array"
  points :: "string \<rightharpoonup> Points"

text \<open>
  The upstream provider, as far as \<^verbatim>\<open>RandomLocation\<close> uses it: its spec,
  what \<^verbatim>\<open>spec.get_total_roi()\<close> returns (that method is not among the
  source files, so its result is a field), and \<^verbatim>\<open>request_batch\<close>, which
  may fail.
\<close>

record 'd Upstream =
  provider_spec :: ProviderSpec
  total_roi :: "Roi option"
  request_batch :: "BatchRequest \<Rightarrow> error + 'd Batch"

section \<open>The mask and its integral image\<close>

text \<open>
  A three-dimensional array of numbers: its shape and the value at every index inside
  the shape. Integers are unbounded here; \<open>mask_integral_dtype\<close> is the width in bits
  of the unsigned type that lines 73 to 78 choose for the table, and the entries of the
  table, counts of voxels, fit into it (lemma \<open>mask_integral_dtype_holds\<close>).
\<close>

record volume =
  vshape :: Coordinate
  voxel :: "Coordinate \<Rightarrow> int"

definition volume_size :: "volume \<Rightarrow> int" where
  "volume_size m = coord_prod (vshape m)"

definition mask_integral_dtype :: "int \<Rightarrow> nat" where
  "mask_integral_dtype n = (if n < 2 ^ 16 then 16 else if n < 2 ^ 32 then 32 else 64)"

text \<open>Line 81: \<^verbatim>\<open>mask_data > 0\<close>, as numbers.\<close>

definition binarize :: "volume \<Rightarrow> volume" where
  "binarize m = \<lparr>vshape = vshape m, voxel = (\<lambda>p. if voxel m p > 0 then 1 else 0)\<rparr>"

text \<open>
  \<^verbatim>\<open>integral_image\<close> and \<^verbatim>\<open>integrate\<close> come from scikit-image, which is
  not among the source files. \<^verbatim>\<open>integral_image\<close> is the cumulative sum along
  every axis: the table holds at every index the sum of all entries up to that index.
\<close>

definition box_sum :: "(Coordinate \<Rightarrow> int) \<Rightarrow> Coordinate \<Rightarrow> Coordinate \<Rightarrow> int" where
  "box_sum f lo hi =
     (case (lo, hi) of ((l1, l2, l3), (h1, h2, h3)) \<Rightarrow>
        sum_list (map (\<lambda>i. sum_list (map (\<lambda>j. sum_list (map (\<lambda>k. f (i, j, k)) [l3..h3])) [l2..h2])) [l1..h1]))"

definition integral_image :: "volume \<Rightarrow> volume" where
  "integral_image m = \<lparr>vshape = vshape m, voxel = (\<lambda>p. box_sum (voxel m) (0, 0, 0) p)\<rparr>"

text \<open>
  \<^verbatim>\<open>integrate(ii, start, end)\<close> sums over the window from \<open>start\<close> to \<open>end\<close>,
  both inclusive. It first replaces a negative coordinate of \<open>start\<close> or \<open>end\<close> by
  that coordinate plus the length of the axis, and raises \<open>IndexError\<close> when then
  \<open>end\<close> lies before \<open>start\<close> on some axis. The sum is read off the eight corners
  of the window: a corner takes on every axis either \<open>end\<close> or \<open>start - 1\<close>, counts
  negatively when it takes \<open>start - 1\<close> on an odd number of axes, and is left out when
  a coordinate \<open>start - 1\<close> it takes is negative. The table is read with the indexing
  of numpy: an index \<open>i\<close> of an axis of length \<open>n\<close> must satisfy
  \<open>-n \<le> i < n\<close>, a negative one counts from the end, any other raises
  \<open>IndexError\<close>.
\<close>

definition wrap_index :: "int \<Rightarrow> int \<Rightarrow> int" where
  "wrap_index n i = (if i < 0 then i + n else i)"

fun wrap_indices :: "Coordinate \<Rightarrow> Coordinate \<Rightarrow> Coordinate" where
  "wrap_indices (n1, n2, n3) (i, j, k) = (wrap_index n1 i, wrap_index n2 j, wrap_index n3 k)"

definition getitem :: "volume \<Rightarrow> Coordinate \<Rightarrow> error + int" where
  "getitem a p =
     (case (vshape a, p) of ((n1, n2, n3), (i, j, k)) \<Rightarrow>
        if - n1 \<le> i \<and> i < n1 \<and> - n2 \<le> j \<and> j < n2 \<and> - n3 \<le> k \<and> k < n3
        then Inr (voxel a (wrap_indices (vshape a) p))
        else Inl IndexError)"

definition corner_term ::
  "volume \<Rightarrow> Coordinate \<Rightarrow> Coordinate \<Rightarrow> bool \<times> bool \<times> bool \<Rightarrow> error + int" where
  "corner_term ii start end_incl bits =
     (case (start, end_incl, bits) of ((s1, s2, s3), (e1, e2, e3), (b1, b2, b3)) \<Rightarrow>
        if (b1 \<and> s1 - 1 < 0) \<or> (b2 \<and> s2 - 1 < 0) \<or> (b3 \<and> s3 - 1 < 0) then Inr 0
        else
          (case getitem ii (if b1 then s1 - 1 else e1, if b2 then s2 - 1 else e2,
                            if b3 then s3 - 1 else e3) of
             Inl e \<Rightarrow> Inl e
           | Inr v \<Rightarrow> Inr ((- 1) ^ (length (filter id [b1, b2, b3])) * v)))"

fun sum_terms :: "(error + int) list \<Rightarrow> error + int" where
  "sum_terms [] = Inr 0"
| "sum_terms (t # ts) =
     (case t of
        Inl e \<Rightarrow> Inl e
      | Inr v \<Rightarrow> (case sum_terms ts of Inl e \<Rightarrow> Inl e | Inr w \<Rightarrow> Inr (v + w)))"

definition integrate :: "volume \<Rightarrow> Coordinate \<Rightarrow> Coordinate \<Rightarrow> error + int" where
  "integrate ii start end_incl =
     (let s = wrap_indices (vshape ii) start; e = wrap_indices (vshape ii) end_incl
      in if \<not> coord_le s e then Inl IndexError
         else sum_terms (map (corner_term ii s e)
                [(False, False, False), (False, False, True), (False, True, False),
                 (False, True, True), (True, False, False), (True, False, True),
                 (True, True, False), (True, True, True)]))"

text \<open>
  A window that lies inside an array of the given shape, and the value of the table at
  a corner of such a window (0 for a corner that is left out).
\<close>

definition valid_window :: "Coordinate \<Rightarrow> Coordinate \<Rightarrow> Coordinate \<Rightarrow> bool" where
  "valid_window shp start end_incl =
     (coord_le (0, 0, 0) start \<and> coord_le start end_incl \<and> coord_less end_incl shp)"

definition corner :: "volume \<Rightarrow> Coordinate \<Rightarrow> int" where
  "corner ii p = (case p of (z, y, x) \<Rightarrow> if z < 0 \<or> y < 0 \<or> x < 0 then 0 else voxel ii p)"

section \<open>RandomLocation\<close>

record Config =
  min_masked :: real
  mask :: "string option"
  ensure_nonempty :: "string option"

text \<open>
  The attributes of the node after \<^verbatim>\<open>setup()\<close>. The node's own spec
  (\<^verbatim>\<open>self.spec\<close> of \<^verbatim>\<open>BatchFilter\<close>, a copy of the upstream spec that
  \<^verbatim>\<open>updates\<close> writes to) is the field \<open>node_spec\<close>.
\<close>

record Node =
  config :: Config
  upstream_spec :: ProviderSpec
  upstream_roi :: Roi
  mask_spec :: "Spec option"
  mask_integral :: "volume option"
  node_spec :: ProviderSpec

definition clear_roi :: "Spec \<Rightarrow> Spec" where
  "clear_roi s = s\<lparr>roi := None\<rparr>"

definition clear_rois :: "ProviderSpec \<Rightarrow> ProviderSpec" where
  "clear_rois s =
     \<lparr>array_specs = map (\<lambda>(k, v). (k, clear_roi v)) (array_specs s),
      points_specs = map (\<lambda>(k, v). (k, clear_roi v)) (points_specs s)\<rparr>"

text \<open>\<^verbatim>\<open>self.mask and self.min_masked > 0\<close>: the mask key, when the mask
  constraint is switched on.\<close>

definition active_mask :: "Config \<Rightarrow> string option" where
  "active_mask c =
     (case mask c of None \<Rightarrow> None | Some m \<Rightarrow> if min_masked c > 0 then Some m else None)"

subsection \<open>setup\<close>

definition rl_setup :: "Config \<Rightarrow> volume Upstream \<Rightarrow> error + Node" where
  "rl_setup c up =
     (case total_roi up of
        None \<Rightarrow> Inl RuntimeError
      | Some uroi \<Rightarrow>
          (case active_mask c of
             Some m \<Rightarrow>
               (case map_of (array_specs (provider_spec up)) m of
                  None \<Rightarrow> Inl AssertionError
                | Some ms \<Rightarrow>
                    (case request_batch up \<lparr>array_specs = [(m, ms)], points_specs = []\<rparr> of
                       Inl e \<Rightarrow> Inl e
                     | Inr mask_batch \<Rightarrow>
                         (case arrays mask_batch m of
                            None \<Rightarrow> Inl KeyError
                          | Some a \<Rightarrow>
                              Inr \<lparr>config = c, upstream_spec = provider_spec up,
                                   upstream_roi = uroi, mask_spec = Some ms,
                                   mask_integral = Some (integral_image (binarize (data a))),
                                   node_spec = clear_rois (provider_spec up)\<rparr>)))
           | None \<Rightarrow>
               Inr \<lparr>config = c, upstream_spec = provider_spec up, upstream_roi = uroi,
                    mask_spec = None, mask_integral = None,
                    node_spec = clear_rois (provider_spec up)\<rparr>))"

subsection \<open>prepare: the feasible-shift region\<close>

text \<open>
  Modelled from the spec: \<^verbatim>\<open>ProviderSpec.get_lcm_voxel_size\<close> is not among the
  source files; the spec calls its result the least common multiple of all requested
  voxel sizes. A key that the node's spec does not hold is a \<open>KeyError\<close>.
\<close>

fun get_lcm_voxel_size ::
  "(string \<times> Spec) list \<Rightarrow> string list \<Rightarrow> Coordinate option \<Rightarrow> error + Coordinate option" where
  "get_lcm_voxel_size specs [] acc = Inr acc"
| "get_lcm_voxel_size specs (k # ks) acc =
     (case map_of specs k of
        None \<Rightarrow> Inl KeyError
      | Some s \<Rightarrow>
          (case voxel_size s of
             None \<Rightarrow> get_lcm_voxel_size specs ks acc
           | Some v \<Rightarrow>
               get_lcm_voxel_size specs ks
                 (Some (case acc of None \<Rightarrow> v | Some a \<Rightarrow> coord_lcm a v))))"

definition lcm_voxel_size_of :: "Node \<Rightarrow> BatchRequest \<Rightarrow> error + Coordinate option" where
  "lcm_voxel_size_of node request =
     (if array_specs request \<noteq> []
      then get_lcm_voxel_size (array_specs (node_spec node)) (map fst (array_specs request)) None
      else Inr None)"

definition type_shift_roi :: "Roi \<Rightarrow> Roi \<Rightarrow> Roi" where
  "type_shift_roi provided_roi request_roi =
     grow (shift provided_roi (coord_neg (get_begin request_roi)))
          (0, 0, 0) (coord_neg (shape request_roi))"

text \<open>The loop over \<^verbatim>\<open>request.items()\<close>; the accumulator is \<open>shift_roi\<close>.\<close>

fun shift_roi_loop ::
  "ProviderSpec \<Rightarrow> (key \<times> Spec) list \<Rightarrow> Roi option \<Rightarrow> error + Roi option" where
  "shift_roi_loop up [] shift_roi = Inr shift_roi"
| "shift_roi_loop up ((identifier, sp) # rest) shift_roi =
     (case lookup_spec up identifier of
        None \<Rightarrow> Inl RequestedKeyNotProvided
      | Some provided \<Rightarrow>
          (case roi provided of
             None \<Rightarrow> Inl AttributeError
           | Some provided_roi \<Rightarrow>
               (case roi sp of
                  None \<Rightarrow> Inl AttributeError
                | Some request_roi \<Rightarrow>
                    shift_roi_loop up rest
                      (Some (case shift_roi of
                               None \<Rightarrow> type_shift_roi provided_roi request_roi
                             | Some r \<Rightarrow> intersect r (type_shift_roi provided_roi request_roi))))))"

text \<open>
  Whether a shift lies in the region that one item of the request contributes: the
  \<open>type_shift_roi\<close> of the Roi that upstream provides for its key and of the Roi
  it requests.
\<close>

definition key_admits :: "ProviderSpec \<Rightarrow> key \<times> Spec \<Rightarrow> Coordinate \<Rightarrow> bool" where
  "key_admits up it s =
     (case lookup_spec up (fst it) of
        None \<Rightarrow> False
      | Some provided \<Rightarrow>
          (case roi provided of
             None \<Rightarrow> False
           | Some provided_roi \<Rightarrow>
               (case roi (snd it) of
                  None \<Rightarrow> False
                | Some request_roi \<Rightarrow> contains (type_shift_roi provided_roi request_roi) s)))"

text \<open>The loop followed by the assertion that the region is not empty.\<close>

definition feasible_shift_roi :: "Node \<Rightarrow> BatchRequest \<Rightarrow> error + Roi" where
  "feasible_shift_roi node request =
     (case shift_roi_loop (upstream_spec node) (items request) None of
        Inl e \<Rightarrow> Inl e
      | Inr None \<Rightarrow> Inl AssertionError
      | Inr (Some shift_roi) \<Rightarrow>
          if roi_size shift_roi > 0 then Inr shift_roi else Inl AssertionError)"

definition lcm_shift_roi_of :: "Roi \<Rightarrow> Coordinate option \<Rightarrow> error + Roi" where
  "lcm_shift_roi_of shift_roi lcm_voxel_size =
     (case lcm_voxel_size of None \<Rightarrow> Inr shift_roi | Some v \<Rightarrow> roi_div shift_roi v)"

subsection \<open>prepare: random choices\<close>

text \<open>
  The random sources (\<^verbatim>\<open>random.randint\<close>, \<^verbatim>\<open>np.random.choice\<close>) are
  a sequence of integers \<open>draws\<close> and the position of the next unread one: a draw
  \<open>d\<close> makes \<^verbatim>\<open>randint(a, b)\<close> return \<open>a + d mod (b - a + 1)\<close>, so every
  value from \<open>a\<close> to \<open>b\<close> is the result for some draw. An empty range raises
  \<open>ValueError\<close>, as in Python.
\<close>

definition randint :: "(nat \<Rightarrow> int) \<Rightarrow> nat \<Rightarrow> int \<Rightarrow> int \<Rightarrow> error + int" where
  "randint draws pos a b =
     (if b < a then Inl ValueError else Inr (a + draws pos mod (b - a + 1)))"

text \<open>A coordinate built from three \<open>randint\<close> calls, bounds inclusive.\<close>

definition random_coordinate ::
  "(nat \<Rightarrow> int) \<Rightarrow> nat \<Rightarrow> Coordinate \<Rightarrow> Coordinate \<Rightarrow> error + (Coordinate \<times> nat)" where
  "random_coordinate draws pos lo hi =
     (case (lo, hi) of ((l1, l2, l3), (h1, h2, h3)) \<Rightarrow>
        (case randint draws pos l1 h1 of
           Inl e \<Rightarrow> Inl e
         | Inr z \<Rightarrow>
             (case randint draws (pos + 1) l2 h2 of
                Inl e \<Rightarrow> Inl e
              | Inr y \<Rightarrow>
                  (case randint draws (pos + 2) l3 h3 of
                     Inl e \<Rightarrow> Inl e
                   | Inr x \<Rightarrow> Inr ((z, y, x), pos + 3)))))"

text \<open>\<^verbatim>\<open>np.random.choice(ids, size=1)[0]\<close> on a list that is not empty.\<close>

definition random_choice :: "(nat \<Rightarrow> int) \<Rightarrow> nat \<Rightarrow> 'a list \<Rightarrow> 'a" where
  "random_choice draws pos xs = xs ! nat (draws pos mod int (length xs))"

text \<open>Lines 136 to 140: a random point of the divided region, multiplied back.\<close>

definition initial_shift ::
  "(nat \<Rightarrow> int) \<Rightarrow> nat \<Rightarrow> Roi \<Rightarrow> Coordinate option \<Rightarrow> error + (Coordinate \<times> nat)" where
  "initial_shift draws pos lcm_shift_roi lcm_voxel_size =
     (case random_coordinate draws pos (get_begin lcm_shift_roi)
             (coord_sub (get_end lcm_shift_roi) (1, 1, 1)) of
        Inl e \<Rightarrow> Inl e
      | Inr (random_shift, pos') \<Rightarrow>
          Inr (case lcm_voxel_size of
                 None \<Rightarrow> random_shift
               | Some v \<Rightarrow> coord_mul random_shift v, pos'))"

subsection \<open>prepare: the point constraint\<close>

definition max_trials :: nat where
  "max_trials = 100000"

text \<open>
  The inner loop of lines 166 to 180, as the lines read. \<^verbatim>\<open>prepare\<close> does not
  get as far as this loop: line 153 raises before (see \<open>points_phase\<close> below), so
  nothing below calls this function; it is kept to say what the loop would do. Its result
  is the value of \<open>random_shift\<close> when the loop is left,
  \<open>good_location_found_for_points\<close>, the trial counter and the position of the next
  draw. The loop counts \<open>trial_nr\<close> up from 0 and leaves at the latest when it equals
  \<open>max_trials\<close>; the guard in the first line makes this the measure of the recursion
  (a counter that started at or past \<open>max_trials\<close> would never meet the equality
  test, which is the value \<open>None\<close>).
\<close>

function local_shift_search ::
  "(nat \<Rightarrow> int) \<Rightarrow> Roi \<Rightarrow> Coordinate \<Rightarrow> Roi \<Rightarrow> Coordinate \<Rightarrow> Coordinate \<Rightarrow> Coordinate \<Rightarrow>
   nat \<Rightarrow> Coordinate \<Rightarrow> nat \<Rightarrow> (error + Coordinate \<times> bool \<times> nat \<times> nat) option" where
  "local_shift_search draws shift_roi initial_random_shift local_shift_roi
       focused_points_offset focused_points_shape chosen_point_location
       trial_nr random_shift pos =
     (if max_trials \<le> trial_nr then None
      else
        (case random_coordinate draws pos (get_begin local_shift_roi) (get_end local_shift_roi) of
           Inl e \<Rightarrow> Some (Inl e)
         | Inr (local_shift, pos') \<Rightarrow>
             if contains shift_roi (coord_add initial_random_shift local_shift) then
               (if \<not> contains
                       \<lparr>offset = coord_add (coord_add initial_random_shift local_shift)
                                            focused_points_offset,
                        shape = focused_points_shape\<rparr>
                       chosen_point_location
                then Some (Inl AssertionError)
                else Some (Inr (coord_add initial_random_shift local_shift,
                                trial_nr + 1 \<noteq> max_trials, trial_nr + 1, pos')))
             else if trial_nr + 1 = max_trials
               then Some (Inr (random_shift, False, trial_nr + 1, pos'))
             else local_shift_search draws shift_roi initial_random_shift local_shift_roi
                    focused_points_offset focused_points_shape chosen_point_location
                    (trial_nr + 1) random_shift pos'))"
  by pat_completeness auto

termination
  by (relation "measure (\<lambda>(draws, shift_roi, initial_random_shift, local_shift_roi,
        focused_points_offset, focused_points_shape, chosen_point_location,
        trial_nr, random_shift, pos). max_trials - trial_nr)") auto

declare local_shift_search.simps [simp del]

text \<open>
  The outcome of one pass through the body of the outer loop: the shift, the two flags
  and the position of the next draw.
\<close>

record attempt =
  att_shift :: Coordinate
  att_mask :: bool
  att_points :: bool
  att_pos :: nat

text \<open>
  Lines 145 to 186. With \<open>ensure_nonempty\<close> set, line 147 reads the Roi requested for
  that key and lines 148 and 149 its offset and shape; line 153 then calls
  \<^verbatim>\<open>PointsSpec\<close>. The file binds this name nowhere: its imports (lines 1 to 10)
  bring in \<^verbatim>\<open>BatchRequest\<close>, \<^verbatim>\<open>Coordinate\<close>, \<^verbatim>\<open>Roi\<close> and
  \<^verbatim>\<open>BatchFilter\<close> only, and no line assigns it. Looking the name up raises
  \<open>NameError\<close>, before the arguments of the call are evaluated and before line 154
  asks the upstream provider for anything. Lines 154 to 183 (the request for the points,
  the choice of a point and the local search) are therefore never reached, and no pass
  with \<open>ensure_nonempty\<close> set comes to an end without an error.

  Line 147 reads \<^verbatim>\<open>request.points_spec\<close>, where lines 219, 231 and 235 read
  \<^verbatim>\<open>request.points_specs\<close>. The class of the request is not among the source
  files; the attribute is read here as \<^verbatim>\<open>points_specs\<close>. (Were there no such
  attribute, line 147 would raise instead of line 153.) The result has no mask flag yet
  (\<open>att_mask\<close> is set by \<open>sample_once\<close>).
\<close>

definition points_phase :: "Config \<Rightarrow> BatchRequest \<Rightarrow> Coordinate \<Rightarrow> nat \<Rightarrow> error + attempt" where
  "points_phase c request random_shift pos =
     (case ensure_nonempty c of
        None \<Rightarrow>
          Inr \<lparr>att_shift = random_shift, att_mask = False, att_points = True, att_pos = pos\<rparr>
      | Some k \<Rightarrow>
          (case map_of (points_specs request) k of
             None \<Rightarrow> Inl KeyError
           | Some focused \<Rightarrow>
               (case roi focused of
                  None \<Rightarrow> Inl AttributeError
                | Some focused_points_roi \<Rightarrow> Inl NameError)))"

subsection \<open>prepare: the mask constraint\<close>

text \<open>Lines 190 to 196: the requested mask Roi, shifted, in voxels of the mask array.\<close>

definition mask_window :: "Node \<Rightarrow> BatchRequest \<Rightarrow> string \<Rightarrow> Coordinate \<Rightarrow> error + Roi" where
  "mask_window node request m random_shift =
     (case map_of (array_specs request) m of
        None \<Rightarrow> Inl KeyError
      | Some requested \<Rightarrow>
          (case roi requested of
             None \<Rightarrow> Inl AttributeError
           | Some request_mask_roi \<Rightarrow>
               (case map_of (array_specs (node_spec node)) m of
                  None \<Rightarrow> Inl KeyError
                | Some own \<Rightarrow>
                    (case voxel_size own of
                       None \<Rightarrow> Inl TypeError
                     | Some mask_voxel_size \<Rightarrow>
                         (case roi_div (shift request_mask_roi random_shift) mask_voxel_size of
                            Inl e \<Rightarrow> Inl e
                          | Inr in_array \<Rightarrow>
                              (case mask_spec node of
                                 None \<Rightarrow> Inl AttributeError
                               | Some ms \<Rightarrow>
                                   (case roi ms of
                                      None \<Rightarrow> Inl AttributeError
                                    | Some mask_roi \<Rightarrow>
                                        (case coord_div (offset mask_roi) mask_voxel_size of
                                           Inl e \<Rightarrow> Inl e
                                         | Inr off \<Rightarrow> Inr (roi_sub in_array off)))))))))"

text \<open>
  Lines 199 to 205. \<^verbatim>\<open>float(num_masked_in)/size\<close> is the exact quotient here:
  the rounding of Python's floating-point division is outside the model.
\<close>

definition num_masked_in :: "Node \<Rightarrow> Roi \<Rightarrow> error + int" where
  "num_masked_in node request_mask_roi_in_array =
     (case mask_integral node of
        None \<Rightarrow> Inl AttributeError
      | Some ii \<Rightarrow>
          integrate ii (get_begin request_mask_roi_in_array)
            (coord_sub (get_end request_mask_roi_in_array) (1, 1, 1)))"

definition mask_ratio :: "Node \<Rightarrow> Roi \<Rightarrow> error + real" where
  "mask_ratio node request_mask_roi_in_array =
     (case num_masked_in node request_mask_roi_in_array of
        Inl e \<Rightarrow> Inl e
      | Inr n \<Rightarrow>
          if roi_size request_mask_roi_in_array = 0 then Inl ZeroDivisionError
          else Inr (real_of_int n / real_of_int (roi_size request_mask_roi_in_array)))"

definition mask_phase :: "Node \<Rightarrow> BatchRequest \<Rightarrow> Coordinate \<Rightarrow> error + bool" where
  "mask_phase node request random_shift =
     (case active_mask (config node) of
        None \<Rightarrow> Inr True
      | Some m \<Rightarrow>
          (case mask_window node request m random_shift of
             Inl e \<Rightarrow> Inl e
           | Inr w \<Rightarrow>
               (case mask_ratio node w of
                  Inl e \<Rightarrow> Inl e
                | Inr r \<Rightarrow> Inr (r \<ge> min_masked (config node)))))"

subsection \<open>prepare: the sampling loop\<close>

text \<open>One pass through the body of the \<^verbatim>\<open>while\<close> loop of line 134.\<close>

definition sample_once ::
  "Node \<Rightarrow> BatchRequest \<Rightarrow> (nat \<Rightarrow> int) \<Rightarrow> Roi \<Rightarrow> Coordinate option \<Rightarrow> nat \<Rightarrow> error + attempt" where
  "sample_once node request draws lcm_shift_roi lcm_voxel_size pos =
     (case initial_shift draws pos lcm_shift_roi lcm_voxel_size of
        Inl e \<Rightarrow> Inl e
      | Inr (random_shift, pos') \<Rightarrow>
          (case points_phase (config node) request random_shift pos' of
             Inl e \<Rightarrow> Inl e
           | Inr a \<Rightarrow>
               (case mask_phase node request (att_shift a) of
                  Inl e \<Rightarrow> Inl e
                | Inr good \<Rightarrow> Inr (a\<lparr>att_mask := good\<rparr>))))"

text \<open>
  The \<^verbatim>\<open>while\<close> loop may run for ever; \<open>fuel\<close> bounds the number of passes,
  and \<open>None\<close> says that the loop has not been left within them.
\<close>

fun sample_loop ::
  "nat \<Rightarrow> Node \<Rightarrow> BatchRequest \<Rightarrow> (nat \<Rightarrow> int) \<Rightarrow> Roi \<Rightarrow> Coordinate option \<Rightarrow> nat \<Rightarrow>
   (error + attempt) option" where
  "sample_loop 0 node request draws lcm_shift_roi lcm_voxel_size pos = None"
| "sample_loop (Suc fuel) node request draws lcm_shift_roi lcm_voxel_size pos =
     (case sample_once node request draws lcm_shift_roi lcm_voxel_size pos of
        Inl e \<Rightarrow> Some (Inl e)
      | Inr a \<Rightarrow>
          if \<not> att_mask a \<or> \<not> att_points a
          then sample_loop fuel node request draws lcm_shift_roi lcm_voxel_size (att_pos a)
          else Some (Inr a))"

subsection \<open>prepare: shifting the request\<close>

text \<open>Lines 219 to 224, for one of the two dictionaries of the request.\<close>

fun shift_specs :: "Roi \<Rightarrow> Coordinate \<Rightarrow> (string \<times> Spec) list \<Rightarrow> error + (string \<times> Spec) list" where
  "shift_specs uroi random_shift [] = Inr []"
| "shift_specs uroi random_shift ((k, sp) # rest) =
     (case roi sp of
        None \<Rightarrow> Inl AttributeError
      | Some r \<Rightarrow>
          if \<not> contains_roi uroi (shift r random_shift) then Inl AssertionError
          else
            (case shift_specs uroi random_shift rest of
               Inl e \<Rightarrow> Inl e
             | Inr rest' \<Rightarrow> Inr ((k, sp\<lparr>roi := Some (shift r random_shift)\<rparr>) # rest')))"

definition shift_request :: "Roi \<Rightarrow> Coordinate \<Rightarrow> BatchRequest \<Rightarrow> error + BatchRequest" where
  "shift_request uroi random_shift request =
     (case shift_specs uroi random_shift (array_specs request) of
        Inl e \<Rightarrow> Inl e
      | Inr a \<Rightarrow>
          (case shift_specs uroi random_shift (points_specs request) of
             Inl e \<Rightarrow> Inl e
           | Inr p \<Rightarrow> Inr \<lparr>array_specs = a, points_specs = p\<rparr>))"

subsection \<open>prepare and process\<close>

text \<open>
  What \<^verbatim>\<open>prepare\<close> leaves behind: \<^verbatim>\<open>self.random_shift\<close> and the
  request with its Rois shifted (the request that goes upstream). The upstream provider
  is a parameter of \<^verbatim>\<open>prepare\<close>, but nothing is asked of it: the only call of
  \<^verbatim>\<open>request_batch\<close> in \<^verbatim>\<open>prepare\<close> is on line 154, which is not
  reached.
\<close>

record Prepared =
  random_shift :: Coordinate
  upstream_request :: BatchRequest

definition rl_prepare ::
  "Node \<Rightarrow> volume Upstream \<Rightarrow> BatchRequest \<Rightarrow> (nat \<Rightarrow> int) \<Rightarrow> nat \<Rightarrow> (error + Prepared) option" where
  "rl_prepare node up request draws fuel =
     (case lcm_voxel_size_of node request of
        Inl e \<Rightarrow> Some (Inl e)
      | Inr lcm_voxel_size \<Rightarrow>
          (case feasible_shift_roi node request of
             Inl e \<Rightarrow> Some (Inl e)
           | Inr shift_roi \<Rightarrow>
               (case lcm_shift_roi_of shift_roi lcm_voxel_size of
                  Inl e \<Rightarrow> Some (Inl e)
                | Inr lcm_shift_roi \<Rightarrow>
                    (case sample_loop fuel node request draws lcm_shift_roi lcm_voxel_size 0 of
                       None \<Rightarrow> None
                     | Some (Inl e) \<Rightarrow> Some (Inl e)
                     | Some (Inr a) \<Rightarrow>
                         (case shift_request (upstream_roi node) (att_shift a) request of
                            Inl e \<Rightarrow> Some (Inl e)
                          | Inr shifted \<Rightarrow>
                              Some (Inr \<lparr>random_shift = att_shift a,
                                         upstream_request = shifted\<rparr>))))))"

text \<open>\<^verbatim>\<open>process\<close>: the three loops of lines 229 to 237.\<close>

fun reset_rois ::
  "(string \<times> Spec) list \<Rightarrow> (string \<rightharpoonup> 'd Array) \<Rightarrow> error + (string \<rightharpoonup> 'd Array)" where
  "reset_rois [] m = Inr m"
| "reset_rois ((k, sp) # rest) m =
     (case m k of
        None \<Rightarrow> Inl KeyError
      | Some a \<Rightarrow> reset_rois rest (m(k \<mapsto> a\<lparr>spec := (spec a)\<lparr>roi := roi sp\<rparr>\<rparr>)))"

fun shift_points ::
  "Coordinate \<Rightarrow> string list \<Rightarrow> (string \<rightharpoonup> Points) \<Rightarrow> error + (string \<rightharpoonup> Points)" where
  "shift_points s [] m = Inr m"
| "shift_points s (k # ks) m =
     (case m k of
        None \<Rightarrow> Inl KeyError
      | Some ps \<Rightarrow>
          shift_points s ks
            (m(k \<mapsto> ps\<lparr>data := map (\<lambda>(point_id, location). (point_id, coord_sub location s))
                                (data ps)\<rparr>)))"

definition rl_process :: "Coordinate \<Rightarrow> 'd Batch \<Rightarrow> BatchRequest \<Rightarrow> error + 'd Batch" where
  "rl_process self_random_shift batch request =
     (case reset_rois (array_specs request) (arrays batch) of
        Inl e \<Rightarrow> Inl e
      | Inr a \<Rightarrow>
          (case reset_rois (points_specs request) (points batch) of
             Inl e \<Rightarrow> Inl e
           | Inr p \<Rightarrow>
               (case shift_points self_random_shift (map fst (points_specs request)) p of
                  Inl e \<Rightarrow> Inl e
                | Inr p' \<Rightarrow> Inr (batch\<lparr>arrays := a, points := p'\<rparr>))))"

section \<open>Normalize\<close>

text \<open>
  The data of an array, by its \<^verbatim>\<open>dtype\<close>: bytes for \<^verbatim>\<open>np.uint8\<close>,
  numbers for \<^verbatim>\<open>np.float32\<close> and for any other dtype (named by a string).
  Floating-point numbers are modelled by the reals they stand for: the cast
  \<^verbatim>\<open>astype(self.dtype)\<close> to a floating-point dtype keeps every value, and the
  rounding of the product is outside the model. An array may hold no entries at all;
  numpy's \<^verbatim>\<open>min()\<close> and \<^verbatim>\<open>max()\<close> raise \<open>ValueError\<close> on it.
\<close>

datatype ndarray =
    UInt8 "8 word list"
  | Float32 "real list"
  | OtherDtype string "real list"

record Normalize =
  array :: string
  factor :: "real option"
  dtype :: string

fun entries :: "ndarray \<Rightarrow> real list" where
  "entries (UInt8 ws) = map (\<lambda>w. real (unat w)) ws"
| "entries (Float32 xs) = xs"
| "entries (OtherDtype name xs) = xs"

text \<open>Lines 24 to 39: the factor chosen when none was given.\<close>

fun automatic_factor :: "ndarray \<Rightarrow> error + real" where
  "automatic_factor (UInt8 ws) = Inr (1 / 255)"
| "automatic_factor (Float32 xs) =
     (if xs = [] then Inl ValueError
      else if Min (set xs) \<ge> 0 \<and> Max (set xs) \<le> 1 then Inr 1
      else Inl AssertionError)"
| "automatic_factor (OtherDtype name xs) = Inl RuntimeError"

text \<open>Line 42: \<^verbatim>\<open>array.data.astype(self.dtype)*factor\<close>.\<close>

definition scaled :: "string \<Rightarrow> ndarray \<Rightarrow> real \<Rightarrow> ndarray" where
  "scaled target a f =
     (if target = ''float32'' then Float32 (map (\<lambda>x. x * f) (entries a))
      else OtherDtype target (map (\<lambda>x. x * f) (entries a)))"

definition normalize_process :: "Normalize \<Rightarrow> ndarray Batch \<Rightarrow> error + ndarray Batch" where
  "normalize_process self batch =
     (case arrays batch (array self) of
        None \<Rightarrow> Inl KeyError
      | Some a \<Rightarrow>
          (case (case factor self of
                   None \<Rightarrow> automatic_factor (data a)
                 | Some f \<Rightarrow> Inr f) of
             Inl e \<Rightarrow> Inl e
           | Inr f \<Rightarrow>
               Inr (batch\<lparr>arrays := (arrays batch)(array self \<mapsto>
                      a\<lparr>data := scaled (dtype self) (data a) f\<rparr>)\<rparr>)))"

section \<open>Example inputs\<close>

text \<open>
  The inputs at which the theorems below are instantiated: an upstream provider bounded at
  \<open>(0,0,0)\<close> with shape \<open>(20,20,20)\<close> that provides an array \<open>raw\<close> with
  voxel size \<open>(2,2,2)\<close> and a point set \<open>pts\<close> holding one point at
  \<open>(5,5,5)\<close>, and requests against it.
\<close>

definition roi20 :: Roi where
  "roi20 = \<lparr>offset = (0, 0, 0), shape = (20, 20, 20)\<rparr>"

definition roi10 :: Roi where
  "roi10 = \<lparr>offset = (0, 0, 0), shape = (10, 10, 10)\<rparr>"

definition example_spec :: ProviderSpec where
  "example_spec =
     \<lparr>array_specs = [(''raw'', \<lparr>roi = Some roi20, voxel_size = Some (2, 2, 2)\<rparr>)],
      points_specs = [(''pts'', \<lparr>roi = Some roi20, voxel_size = None\<rparr>)]\<rparr>"

definition example_batch :: "BatchRequest \<Rightarrow> volume Batch" where
  "example_batch request =
     \<lparr>arrays = (\<lambda>k. case map_of (array_specs request) k of
                       None \<Rightarrow> None
                     | Some sp \<Rightarrow> Some \<lparr>spec = sp, data = \<lparr>vshape = (0, 0, 0), voxel = (\<lambda>p. 0)\<rparr>\<rparr>),
      points = (\<lambda>k. case map_of (points_specs request) k of
                       None \<Rightarrow> None
                     | Some sp \<Rightarrow>
                         Some \<lparr>spec = sp,
                               data = filter (\<lambda>(i, p). case roi sp of None \<Rightarrow> True
                                                       | Some r \<Rightarrow> contains r p)
                                        [(1, (5, 5, 5))]\<rparr>)\<rparr>"

definition example_upstream :: "volume Upstream" where
  "example_upstream =
     \<lparr>provider_spec = example_spec, total_roi = Some roi20,
      request_batch = (\<lambda>request. Inr (example_batch request))\<rparr>"

definition unbounded_upstream :: "volume Upstream" where
  "unbounded_upstream = example_upstream\<lparr>total_roi := None\<rparr>"

definition plain_config :: Config where
  "plain_config = \<lparr>min_masked = 0, mask = None, ensure_nonempty = None\<rparr>"

definition masked_config :: Config where
  "masked_config = \<lparr>min_masked = 1 / 2, mask = Some ''mask'', ensure_nonempty = None\<rparr>"

definition plain_node :: Node where
  "plain_node =
     \<lparr>config = plain_config, upstream_spec = example_spec, upstream_roi = roi20,
      mask_spec = None, mask_integral = None, node_spec = clear_rois example_spec\<rparr>"

definition zero_draws :: "nat \<Rightarrow> int" where
  "zero_draws = (\<lambda>n. 0)"

definition missing_request :: BatchRequest where
  "missing_request =
     \<lparr>array_specs = [], points_specs = [(''other'', \<lparr>roi = Some roi10, voxel_size = None\<rparr>)]\<rparr>"

definition example_request :: BatchRequest where
  "example_request =
     \<lparr>array_specs = [(''raw'', \<lparr>roi = Some roi10, voxel_size = Some (2, 2, 2)\<rparr>)],
      points_specs = [(''pts'', \<lparr>roi = Some roi10, voxel_size = None\<rparr>)]\<rparr>"

definition counting_draws :: "nat \<Rightarrow> int" where
  "counting_draws = (\<lambda>n. int n + 1)"




definition nonempty_config :: Config where
  "nonempty_config = \<lparr>min_masked = 0, mask = None, ensure_nonempty = Some ''pts''\<rparr>"

definition nonempty_node :: Node where
  "nonempty_node = plain_node\<lparr>config := nonempty_config\<rparr>"

text \<open>
  A small mask: a \<open>4 \<times> 4 \<times> 4\<close> array whose first two sections are masked in, an
  upstream provider that serves it, and a request for a \<open>2 \<times> 2 \<times> 2\<close> region that
  must be masked in to three quarters.
\<close>

text \<open>Batches for \<^verbatim>\<open>Normalize\<close>: one array \<open>raw\<close> with the given data.\<close>

definition auto_normalize :: Normalize where
  "auto_normalize = \<lparr>array = ''raw'', factor = None, dtype = ''float32''\<rparr>"

definition raw_array :: "ndarray \<Rightarrow> ndarray Array" where
  "raw_array d = \<lparr>spec = \<lparr>roi = Some roi10, voxel_size = Some (2, 2, 2)\<rparr>, data = d\<rparr>"

definition raw_batch :: "ndarray \<Rightarrow> ndarray Batch" where
  "raw_batch d = \<lparr>arrays = [''raw'' \<mapsto> raw_array d], points = Map.empty\<rparr>"

text \<open>
  An upstream provider whose only point lies at \<open>(18,18,18)\<close>, and a request for a
  point-set Roi of shape \<open>(19,19,19)\<close>, which fits at the shift \<open>(0,0,0)\<close> only.
\<close>

text \<open>
  A batch as upstream returns it for the request shifted by \<open>(1,1,1)\<close>, and the same
  batch back in the frame of the request.
\<close>

definition returned_batch :: "volume Batch" where
  "returned_batch =
     \<lparr>arrays = [''raw'' \<mapsto> \<lparr>spec = \<lparr>roi = Some \<lparr>offset = (1, 1, 1), shape = (10, 10, 10)\<rparr>,
                                     voxel_size = Some (2, 2, 2)\<rparr>,
                             data = \<lparr>vshape = (5, 5, 5), voxel = (\<lambda>p. 0)\<rparr>\<rparr>],
      points = [''pts'' \<mapsto> \<lparr>spec = \<lparr>roi = Some \<lparr>offset = (1, 1, 1), shape = (10, 10, 10)\<rparr>,
                                     voxel_size = None\<rparr>,
                             data = [(1, (5, 5, 5))]\<rparr>]\<rparr>"

definition restored_batch :: "volume Batch" where
  "restored_batch =
     \<lparr>arrays = [''raw'' \<mapsto> \<lparr>spec = \<lparr>roi = Some roi10, voxel_size = Some (2, 2, 2)\<rparr>,
                             data = \<lparr>vshape = (5, 5, 5), voxel = (\<lambda>p. 0)\<rparr>\<rparr>],
      points = [''pts'' \<mapsto> \<lparr>spec = \<lparr>roi = Some roi10, voxel_size = None\<rparr>,
                             data = [(1, (4, 4, 4))]\<rparr>]\<rparr>"

lemmas example_defs =
  plain_node_def plain_config_def example_spec_def example_request_def example_upstream_def
  example_batch_def roi10_def roi20_def counting_draws_def zero_draws_def

lemmas region_defs =
  get_begin_def get_end_def shift_def grow_def intersect_def contains_def contains_roi_def
  roi_size_def roi_div_def roi_sub_def type_shift_roi_def

lemmas prepare_defs =
  rl_prepare_def lcm_voxel_size_of_def feasible_shift_roi_def lcm_shift_roi_of_def items_def
  sample_once_def initial_shift_def random_coordinate_def randint_def points_phase_def
  mask_phase_def active_mask_def shift_request_def clear_rois_def clear_roi_def

section \<open>Properties of the region algebra\<close>

lemma contains_intersect:
  "contains (intersect a b) p = (contains a p \<and> contains b p)"
  by (cases p; cases "offset a"; cases "offset b"; cases "shape a"; cases "shape b")
     (auto simp: contains_def intersect_def get_begin_def get_end_def Let_def)

section \<open>setup\<close>

lemma map_of_clear:
  "map_of (map (\<lambda>(k, v). (k, clear_roi v)) xs) k = map_option clear_roi (map_of xs k)"
  by (induction xs) auto

lemma setup_result:
  assumes "rl_setup c up = Inr node"
  shows "node_spec node = clear_rois (provider_spec up)"
    and "upstream_spec node = provider_spec up"
    and "total_roi up = Some (upstream_roi node)"
    and "config node = c"
  using assms
  by (auto simp: rl_setup_def split: option.splits sum.splits)

lemma items_clear_rois:
  "items (clear_rois s) = map (\<lambda>(k, v). (k, clear_roi v)) (items s)"
  by (simp add: items_def clear_rois_def case_prod_unfold comp_def)

lemma plain_setup: "rl_setup plain_config example_upstream = Inr plain_node"
  by (simp add: rl_setup_def plain_config_def example_upstream_def plain_node_def active_mask_def)

text \<open>
  C10. After \<^verbatim>\<open>setup()\<close> has returned, every spec that the node advertises
  (array or point set) has no Roi: the node presents itself as unbounded. The keys and
  the voxel sizes are those of the upstream spec; the upstream spec itself is kept
  unchanged, and the total Roi of the upstream provider is kept as \<open>upstream_roi\<close>.
\<close>

theorem setup_clears_rois:
  assumes "rl_setup c up = Inr node"
  shows "(\<forall>(k, s) \<in> set (items (node_spec node)). roi s = None)
       \<and> map fst (items (node_spec node)) = map fst (items (provider_spec up))
       \<and> (\<forall>k. map_option voxel_size (lookup_spec (node_spec node) k)
              = map_option voxel_size (lookup_spec (provider_spec up) k))
       \<and> upstream_spec node = provider_spec up
       \<and> total_roi up = Some (upstream_roi node)"
proof -
  have ns: "node_spec node = clear_rois (provider_spec up)"
    using assms by (rule setup_result)
  have "\<forall>(k, s) \<in> set (items (node_spec node)). roi s = None"
    by (auto simp: ns items_clear_rois clear_roi_def)
  moreover have "map fst (items (node_spec node)) = map fst (items (provider_spec up))"
    by (simp add: ns items_clear_rois case_prod_unfold comp_def)
  moreover have "map_option voxel_size (lookup_spec (node_spec node) k)
              = map_option voxel_size (lookup_spec (provider_spec up) k)" for k
proof -
    have v: "voxel_size (clear_roi s) = voxel_size s" for s
      by (simp add: clear_roi_def)
    show ?thesis
      by (cases k) (simp_all add: ns clear_rois_def map_of_clear option.map_comp comp_def v)
  qed
  ultimately show ?thesis
    using setup_result(2,3)[OF assms] by blast
qed

theorem setup_clears_rois_witness:
  "rl_setup plain_config example_upstream = Inr plain_node
   \<and> map (\<lambda>(k, s). roi s) (items (node_spec plain_node)) = [None, None]
   \<and> map fst (items (node_spec plain_node)) = [ArrayKey ''raw'', PointsKey ''pts'']
   \<and> upstream_spec plain_node = example_spec
   \<and> upstream_roi plain_node = roi20"
proof -
  note t = setup_clears_rois [OF plain_setup]
  have i: "items (provider_spec example_upstream)
           = [(ArrayKey ''raw'', \<lparr>roi = Some roi20, voxel_size = Some (2, 2, 2)\<rparr>),
              (PointsKey ''pts'', \<lparr>roi = Some roi20, voxel_size = None\<rparr>)]"
    by (simp add: items_def example_upstream_def example_spec_def)
  from t have "map fst (items (node_spec plain_node)) = [ArrayKey ''raw'', PointsKey ''pts'']"
    by (simp add: i)
  moreover from t have "upstream_spec plain_node = example_spec"
    by (simp add: example_upstream_def)
  moreover from t have "upstream_roi plain_node = roi20"
    by (simp add: example_upstream_def)
  moreover from t have "\<forall>(k, s) \<in> set (items (node_spec plain_node)). roi s = None"
    by blast
  then have "map (\<lambda>(k, s). roi s) (items (node_spec plain_node)) = [None, None]"
    by (simp add: plain_node_def items_def clear_rois_def example_spec_def clear_roi_def)
  ultimately show ?thesis using plain_setup by simp
qed

text \<open>
  C7, as the code has it. The claim reads: \<^verbatim>\<open>setup()\<close> fails if and only if
  the upstream provider has no bounding box. The "only if" does not hold: with a bounding
  box and a mask constraint whose key upstream does not provide, \<^verbatim>\<open>setup()\<close>
  fails on its assertion.
\<close>

theorem setup_fails_counterexample:
  "total_roi example_upstream = Some roi20
   \<and> rl_setup masked_config example_upstream = Inl AssertionError"
  by (simp add: rl_setup_def masked_config_def example_upstream_def active_mask_def example_spec_def)

text \<open>
  C7, amended. \<^verbatim>\<open>setup()\<close> raises \<open>RuntimeError\<close> whenever the upstream
  provider has no bounding box. Without an active mask constraint this is the only way
  it fails. With an active mask constraint it fails as well when the upstream spec does
  not hold the mask key, when the request for the mask fails upstream, or when the batch
  that comes back has no array under the mask key.
\<close>

theorem setup_fails_iff:
  "(total_roi up = None \<longrightarrow> rl_setup c up = Inl RuntimeError)
   \<and> (active_mask c = None \<longrightarrow> ((\<exists>e. rl_setup c up = Inl e) \<longleftrightarrow> total_roi up = None))
   \<and> (\<forall>m. active_mask c = Some m \<longrightarrow>
        ((\<exists>e. rl_setup c up = Inl e) \<longleftrightarrow>
           (total_roi up = None
            \<or> (case map_of (array_specs (provider_spec up)) m of
                  None \<Rightarrow> True
                | Some ms \<Rightarrow>
                    (case request_batch up \<lparr>array_specs = [(m, ms)], points_specs = []\<rparr> of
                       Inl e \<Rightarrow> True
                     | Inr mask_batch \<Rightarrow> arrays mask_batch m = None)))))"
  by (auto simp: rl_setup_def split: option.splits sum.splits)

theorem setup_fails_iff_witness:
  "total_roi unbounded_upstream = None
   \<and> active_mask plain_config = None
   \<and> rl_setup plain_config unbounded_upstream = Inl RuntimeError
   \<and> (\<exists>e. rl_setup plain_config unbounded_upstream = Inl e)
   \<and> active_mask masked_config = Some ''mask''
   \<and> (\<exists>e. rl_setup masked_config example_upstream = Inl e)"
proof -
  have a: "total_roi unbounded_upstream = None"
    by (simp add: unbounded_upstream_def)
  have b: "active_mask plain_config = None"
    by (simp add: active_mask_def plain_config_def)
  have c: "active_mask masked_config = Some ''mask''"
    by (simp add: active_mask_def masked_config_def)
  have d: "map_of (array_specs (provider_spec example_upstream)) ''mask'' = None"
    by (simp add: example_upstream_def example_spec_def)
  note t = setup_fails_iff [of unbounded_upstream plain_config]
  note u = setup_fails_iff [of example_upstream masked_config]
  from t a have "rl_setup plain_config unbounded_upstream = Inl RuntimeError" by blast
  moreover from t a b have "\<exists>e. rl_setup plain_config unbounded_upstream = Inl e" by blast
  moreover from u c d have "\<exists>e. rl_setup masked_config example_upstream = Inl e"
    by (simp add: d)
  ultimately show ?thesis using a b c by blast
qed

section \<open>prepare: the feasible-shift region\<close>

text \<open>
  A shift lies in the region of one key exactly when the requested Roi, shifted, begins
  inside the provided Roi and ends before the provided Roi ends; the shifted Roi is then
  contained in the provided one.
\<close>

lemma type_shift_roi_contains:
  "contains (type_shift_roi provided_roi request_roi) s =
     (coord_le (get_begin provided_roi) (get_begin (shift request_roi s))
      \<and> coord_less (get_end (shift request_roi s)) (get_end provided_roi))"
  by (cases s; cases "offset provided_roi"; cases "shape provided_roi";
      cases "offset request_roi"; cases "shape request_roi")
     (auto simp: type_shift_roi_def contains_def grow_def shift_def get_begin_def get_end_def)

lemma type_shift_roi_inside:
  "contains (type_shift_roi provided_roi request_roi) s \<Longrightarrow>
   contains_roi provided_roi (shift request_roi s)"
  by (cases s; cases "offset provided_roi"; cases "shape provided_roi";
      cases "offset request_roi"; cases "shape request_roi")
     (auto simp: type_shift_roi_def contains_def contains_roi_def grow_def shift_def
        get_begin_def get_end_def)

lemma shift_roi_loop_contains:
  "shift_roi_loop up its acc = Inr (Some R) \<Longrightarrow>
   contains R s = ((case acc of None \<Rightarrow> True | Some a \<Rightarrow> contains a s)
                   \<and> (\<forall>it \<in> set its. key_admits up it s))"
proof (induction its arbitrary: acc)
  case Nil
  then show ?case by simp
next
  case (Cons it its)
  obtain k sp where it: "it = (k, sp)" by (cases it)
  from Cons.prems obtain p pr rr where
    p: "lookup_spec up k = Some p" "roi p = Some pr" "roi sp = Some rr" and
    rest: "shift_roi_loop up its
             (Some (case acc of None \<Rightarrow> type_shift_roi pr rr
                    | Some r \<Rightarrow> intersect r (type_shift_roi pr rr))) = Inr (Some R)"
    by (auto simp: it split: option.splits)
  have ka: "key_admits up it s = contains (type_shift_roi pr rr) s"
    by (simp add: key_admits_def it p)
  from Cons.IH [OF rest] show ?case
    by (cases acc) (auto simp: ka contains_intersect)
qed




lemma shift_roi_loop_missing:
  "(k, sp) \<in> set its \<Longrightarrow> lookup_spec up k = None \<Longrightarrow> \<exists>e. shift_roi_loop up its acc = Inl e"
proof (induction its arbitrary: acc)
  case Nil
  then show ?case by simp
next
  case (Cons it its)
  obtain k' sp' where it: "it = (k', sp')" by (cases it)
  show ?case
  proof (cases "(k, sp) = it")
    case True
    with Cons.prems it show ?thesis by simp
  next
    case False
    with Cons.prems have "(k, sp) \<in> set its" by simp
    from Cons.IH [OF this Cons.prems(2)] show ?thesis
      by (auto simp: it split: option.splits)
  qed
qed

lemma prepare_fails_early:
  assumes "feasible_shift_roi node request = Inl e"
  shows "\<exists>e'. \<forall>up draws fuel. rl_prepare node up request draws fuel = Some (Inl e')"
proof (cases "lcm_voxel_size_of node request")
  case (Inl e')
  then show ?thesis by (auto simp: rl_prepare_def)
next
  case (Inr v)
  with assms show ?thesis by (auto simp: rl_prepare_def)
qed

lemma example_loop:
  "shift_roi_loop (upstream_spec plain_node) (items example_request) None = Inr (Some roi10)"
  by (simp add: example_defs items_def region_defs Let_def)


text \<open>
  C8, as the code has it. The claim reads: a key that upstream does not provide, be it the
  mask key or a key of a request, is an error raised at \<^verbatim>\<open>setup()\<close>. For
  a key of a request this does not hold: \<^verbatim>\<open>setup()\<close> returns, and the
  error is raised by \<^verbatim>\<open>prepare\<close> when the request arrives.
\<close>

theorem missing_key_counterexample:
  "rl_setup plain_config example_upstream = Inr plain_node
   \<and> rl_prepare plain_node example_upstream missing_request zero_draws 1
       = Some (Inl RequestedKeyNotProvided)"
  by (simp add: plain_setup rl_prepare_def lcm_voxel_size_of_def missing_request_def
      feasible_shift_roi_def items_def plain_node_def example_spec_def)

text \<open>
  C8, amended. An active mask constraint whose key the upstream spec does not hold makes
  \<^verbatim>\<open>setup()\<close> fail (on its assertion, when upstream has a bounding box). A
  request with a key that the upstream spec does not hold makes \<^verbatim>\<open>prepare\<close>
  fail, with an error that depends neither on the random draws nor on the upstream
  provider's answers: it is raised before a shift is sampled and before anything is
  requested upstream.
\<close>

theorem missing_key_errors:
  "(\<forall>m. active_mask c = Some m \<and> map_of (array_specs (provider_spec up)) m = None
        \<longrightarrow> (\<exists>e. rl_setup c up = Inl e \<and> (total_roi up \<noteq> None \<longrightarrow> e = AssertionError)))
   \<and> (\<forall>k sp. (k, sp) \<in> set (items request) \<and> lookup_spec (upstream_spec node) k = None
        \<longrightarrow> (\<exists>e. \<forall>up' draws fuel. rl_prepare node up' request draws fuel = Some (Inl e)))"
proof (intro conjI allI impI)
  fix m
  assume "active_mask c = Some m \<and> map_of (array_specs (provider_spec up)) m = None"
  then show "\<exists>e. rl_setup c up = Inl e \<and> (total_roi up \<noteq> None \<longrightarrow> e = AssertionError)"
    by (auto simp: rl_setup_def split: option.splits)
next
  fix k sp
  assume a: "(k, sp) \<in> set (items request) \<and> lookup_spec (upstream_spec node) k = None"
  then obtain e where "shift_roi_loop (upstream_spec node) (items request) None = Inl e"
    using shift_roi_loop_missing by blast
  then have "feasible_shift_roi node request = Inl e"
    by (simp add: feasible_shift_roi_def)
  then show "\<exists>e. \<forall>up' draws fuel. rl_prepare node up' request draws fuel = Some (Inl e)"
    by (rule prepare_fails_early)
qed

theorem missing_key_errors_witness:
  "active_mask masked_config = Some ''mask''
   \<and> map_of (array_specs (provider_spec example_upstream)) ''mask'' = None
   \<and> total_roi example_upstream \<noteq> None
   \<and> rl_setup masked_config example_upstream = Inl AssertionError
   \<and> (PointsKey ''other'', \<lparr>roi = Some roi10, voxel_size = None\<rparr>) \<in> set (items missing_request)
   \<and> lookup_spec (upstream_spec plain_node) (PointsKey ''other'') = None
   \<and> (\<exists>e. \<forall>up' draws fuel.
          rl_prepare plain_node up' missing_request draws fuel = Some (Inl e))"
proof -
  have a: "active_mask masked_config = Some ''mask''"
    by (simp add: active_mask_def masked_config_def)
  have b: "map_of (array_specs (provider_spec example_upstream)) ''mask'' = None"
    by (simp add: example_upstream_def example_spec_def)
  have c: "(PointsKey ''other'', \<lparr>roi = Some roi10, voxel_size = None\<rparr>) \<in> set (items missing_request)"
    by (simp add: items_def missing_request_def)
  have d: "lookup_spec (upstream_spec plain_node) (PointsKey ''other'') = None"
    by (simp add: plain_node_def example_spec_def)
  note t = missing_key_errors [of masked_config example_upstream missing_request plain_node]
  have r: "total_roi example_upstream \<noteq> None"
    by (simp add: example_upstream_def)
  from t a b r have "rl_setup masked_config example_upstream = Inl AssertionError" by blast
  moreover from t c d
  have "\<exists>e. \<forall>up' draws fuel. rl_prepare plain_node up' missing_request draws fuel = Some (Inl e)"
    by blast
  ultimately show ?thesis using a b c d r by blast
qed

section \<open>prepare: shifting the request\<close>

lemma shift_specs_contains:
  "shift_specs uroi s xs = Inr ys \<Longrightarrow> (k, sp) \<in> set xs \<Longrightarrow>
   \<exists>r. roi sp = Some r \<and> contains_roi uroi (shift r s)"
  by (induction xs arbitrary: ys) (auto split: option.splits if_splits sum.splits)

lemma shift_request_contains:
  assumes "shift_request uroi s request = Inr shifted"
    and "(k, sp) \<in> set (array_specs request @ points_specs request)"
  shows "\<exists>r. roi sp = Some r \<and> contains_roi uroi (shift r s)"
proof -
  from assms(1) obtain a p where
    a: "shift_specs uroi s (array_specs request) = Inr a" and
    p: "shift_specs uroi s (points_specs request) = Inr p"
    by (auto simp: shift_request_def split: sum.splits)
  from assms(2) shift_specs_contains [OF a] shift_specs_contains [OF p]
  show ?thesis by auto
qed

lemma prepare_shifted:
  "rl_prepare node up request draws fuel = Some (Inr P) \<Longrightarrow>
   shift_request (upstream_roi node) (random_shift P) request = Inr (upstream_request P)"
  by (auto simp: rl_prepare_def split: sum.splits option.splits)

section \<open>The integral image\<close>

lemma sum_list_upto: "sum_list (map g [a..b]) = (\<Sum>i\<in>{a..b}. g i)" for g :: "int \<Rightarrow> int"
  by (simp add: sum_list_distinct_conv_sum_set)

lemma sum_split_at:
  fixes g :: "int \<Rightarrow> int"
  assumes "0 \<le> s" and "s \<le> e"
  shows "(\<Sum>i\<in>{0..e}. g i) - (\<Sum>i\<in>{0..s - 1}. g i) = (\<Sum>i\<in>{s..e}. g i)"
proof -
  have "{0..e} = {0..s - 1} \<union> {s..e}" using assms by auto
  moreover have "{0..s - 1} \<inter> {s..e} = {}" by auto
  ultimately show ?thesis by (simp add: sum.union_disjoint)
qed

lemma box_sum_sets:
  "box_sum f (l1, l2, l3) (h1, h2, h3) = (\<Sum>i\<in>{l1..h1}. \<Sum>j\<in>{l2..h2}. \<Sum>k\<in>{l3..h3}. f (i, j, k))"
  by (simp add: box_sum_def sum_list_upto)

lemma corner_integral_image:
  "corner (integral_image m) (z, y, x) = box_sum (voxel m) (0, 0, 0) (z, y, x)"
  by (auto simp: corner_def integral_image_def box_sum_sets)

lemma vshape_integral_image: "vshape (integral_image m) = vshape m"
  by (simp add: integral_image_def)

text \<open>
  The entries of the table of a binarized mask lie between 0 and the number of voxels of
  the mask, so the unsigned integer type that \<^verbatim>\<open>setup()\<close> chooses by the size
  of the mask holds them.
\<close>

lemma sum_unit_bound:
  fixes g :: "int \<Rightarrow> int"
  assumes "\<And>i. 0 \<le> g i \<and> g i \<le> K" and "- 1 \<le> z"
  shows "0 \<le> (\<Sum>i\<in>{0..z}. g i) \<and> (\<Sum>i\<in>{0..z}. g i) \<le> (z + 1) * K"
proof
  show "0 \<le> (\<Sum>i\<in>{0..z}. g i)"
    using assms(1) by (simp add: sum_nonneg)
  have "(\<Sum>i\<in>{0..z}. g i) \<le> of_nat (card {0..z}) * K"
    using assms(1) by (intro sum_bounded_above) simp
  also have "of_nat (card {0..z}) = z + 1"
    using assms(2) by simp
  finally show "(\<Sum>i\<in>{0..z}. g i) \<le> (z + 1) * K" .
qed

lemma integral_image_entry_bounds:
  assumes "coord_le (0, 0, 0) p" and "coord_less p (vshape m)"
  shows "0 \<le> voxel (integral_image (binarize m)) p
       \<and> voxel (integral_image (binarize m)) p \<le> volume_size m"
proof -
  obtain z y x where p: "p = (z, y, x)" by (cases p)
  obtain sz sy sx where s: "vshape m = (sz, sy, sx)" by (cases "vshape m")
  from assms have b: "0 \<le> z" "z < sz" "0 \<le> y" "y < sy" "0 \<le> x" "x < sx"
    by (simp_all add: p s)
  define f where "f = voxel (binarize m)"
  have f: "0 \<le> f q \<and> f q \<le> 1" for q
    by (simp add: f_def binarize_def)
  have 1: "0 \<le> (\<Sum>k\<in>{0..x}. f (i, j, k)) \<and> (\<Sum>k\<in>{0..x}. f (i, j, k)) \<le> (x + 1) * 1" for i j
    using b by (intro sum_unit_bound f) simp
  have 2: "0 \<le> (\<Sum>j\<in>{0..y}. \<Sum>k\<in>{0..x}. f (i, j, k))
         \<and> (\<Sum>j\<in>{0..y}. \<Sum>k\<in>{0..x}. f (i, j, k)) \<le> (y + 1) * ((x + 1) * 1)" for i
    using b by (intro sum_unit_bound 1) simp
  have 3: "0 \<le> (\<Sum>i\<in>{0..z}. \<Sum>j\<in>{0..y}. \<Sum>k\<in>{0..x}. f (i, j, k))
         \<and> (\<Sum>i\<in>{0..z}. \<Sum>j\<in>{0..y}. \<Sum>k\<in>{0..x}. f (i, j, k))
             \<le> (z + 1) * ((y + 1) * ((x + 1) * 1))"
    using b by (intro sum_unit_bound 2) simp
  have "(z + 1) * ((y + 1) * (x + 1)) \<le> sz * (sy * sx)"
    using b by (intro mult_mono) simp_all
  with 3 show ?thesis
    by (simp add: integral_image_def box_sum_def sum_list_distinct_conv_sum_set f_def p s volume_size_def
        mult.assoc)
qed

lemma mask_integral_dtype_holds:
  assumes "coord_le (0, 0, 0) p" and "coord_less p (vshape m)" and "volume_size m < 2 ^ 64"
  shows "voxel (integral_image (binarize m)) p < 2 ^ mask_integral_dtype (volume_size m)"
proof -
  note e = integral_image_entry_bounds [OF assms(1,2)]
  have "volume_size m < 2 ^ mask_integral_dtype (volume_size m) \<or>
        voxel (integral_image (binarize m)) p < 2 ^ mask_integral_dtype (volume_size m)"
    using assms(3) by (auto simp: mask_integral_dtype_def)
  with e show ?thesis by linarith
qed

lemma setup_mask:
  assumes "rl_setup c up = Inr node" and "active_mask c = Some m"
  shows "\<exists>ms mask_batch a.
           map_of (array_specs (provider_spec up)) m = Some ms
         \<and> request_batch up \<lparr>array_specs = [(m, ms)], points_specs = []\<rparr> = Inr mask_batch
         \<and> arrays mask_batch m = Some a
         \<and> mask_spec node = Some ms
         \<and> mask_integral node = Some (integral_image (binarize (data a)))"
  using assms by (auto simp: rl_setup_def split: option.splits sum.splits)

section \<open>Random choices and the local search\<close>

lemma randint_range:
  "randint draws pos a b = Inr r \<Longrightarrow> a \<le> r \<and> r \<le> b"
proof -
  assume r: "randint draws pos a b = Inr r"
  then have ab: "a \<le> b" and v: "r = a + draws pos mod (b - a + 1)"
    by (auto simp: randint_def split: if_splits)
  from ab have n: "0 < b - a + 1" by simp
  from n have "0 \<le> draws pos mod (b - a + 1)" by (rule pos_mod_sign)
  moreover from n have "draws pos mod (b - a + 1) < b - a + 1" by (rule pos_mod_bound)
  ultimately show ?thesis using v by linarith
qed

lemma randint_ok: "a \<le> b \<Longrightarrow> \<exists>r. randint draws pos a b = Inr r"
  by (simp add: randint_def)

lemma random_coordinate_range:
  assumes "random_coordinate draws pos lo hi = Inr (c, pos')"
  shows "coord_le lo c \<and> coord_le c hi \<and> pos' = pos + 3"
proof -
  obtain l1 l2 l3 where lo: "lo = (l1, l2, l3)" by (cases lo)
  obtain h1 h2 h3 where hi: "hi = (h1, h2, h3)" by (cases hi)
  from assms obtain z y x where
    "randint draws pos l1 h1 = Inr z" "randint draws (pos + 1) l2 h2 = Inr y"
    "randint draws (pos + 2) l3 h3 = Inr x" "c = (z, y, x)" "pos' = pos + 3"
    by (auto simp: random_coordinate_def lo hi split: sum.splits)
  then show ?thesis
    using randint_range by (auto simp: lo hi)
qed

lemma random_coordinate_ok:
  assumes "coord_le lo hi"
  shows "\<exists>c. random_coordinate draws pos lo hi = Inr (c, pos + 3)"
proof -
  obtain l1 l2 l3 where lo: "lo = (l1, l2, l3)" by (cases lo)
  obtain h1 h2 h3 where hi: "hi = (h1, h2, h3)" by (cases hi)
  from assms show ?thesis
    by (simp add: random_coordinate_def lo hi randint_def)
qed

text \<open>What the inner loop returns.\<close>

lemma local_shift_search_result:
  assumes "local_shift_search draws shift_roi irs lsr fo fs cpl t rs pos
             = Some (Inr (rs', good, t', pos'))"
  shows "t < t' \<and> t' \<le> max_trials
       \<and> (good \<longrightarrow> t' < max_trials)
       \<and> (t' < max_trials \<longrightarrow> good)
       \<and> (rs' = rs \<and> \<not> good
          \<or> contains shift_roi rs'
            \<and> contains \<lparr>offset = coord_add rs' fo, shape = fs\<rparr> cpl
            \<and> (\<exists>ls. rs' = coord_add irs ls \<and> coord_le (get_begin lsr) ls
                     \<and> coord_le ls (get_end lsr)))"
  using assms
proof (induction draws shift_roi irs lsr fo fs cpl t rs pos rule: local_shift_search.induct)
  case (1 draws shift_roi irs lsr fo fs cpl t rs pos)
  from "1.prems" have lt: "t < max_trials"
    by (subst (asm) local_shift_search.simps) (simp split: if_splits)
  from "1.prems" lt obtain ls p where
    rc: "random_coordinate draws pos (get_begin lsr) (get_end lsr) = Inr (ls, p)"
    by (subst (asm) local_shift_search.simps) (auto split: sum.splits)
  note range = random_coordinate_range [OF rc]
  show ?case
  proof (cases "contains shift_roi (coord_add irs ls)")
    case True
    with "1.prems" lt rc have
      r: "rs' = coord_add irs ls" "good = (t + 1 \<noteq> max_trials)" "t' = t + 1" and
      c: "contains \<lparr>offset = coord_add rs' fo, shape = fs\<rparr> cpl"
      by (subst (asm) local_shift_search.simps; auto split: if_splits)+
    from r(1) range have
      "\<exists>ls. rs' = coord_add irs ls \<and> coord_le (get_begin lsr) ls \<and> coord_le ls (get_end lsr)"
      by blast
    with True r c lt show ?thesis
      by simp
  next
    case False
    show ?thesis
    proof (cases "t + 1 = max_trials")
      case True
      with "1.prems" lt rc False show ?thesis
        by (subst (asm) local_shift_search.simps) auto
    next
      case ne: False
      with "1.prems" lt rc False have
        "local_shift_search draws shift_roi irs lsr fo fs cpl (t + 1) rs p
           = Some (Inr (rs', good, t', pos'))"
        by (subst (asm) local_shift_search.simps) auto
      from "1.IH" [OF _ rc refl False ne this] lt show ?thesis
        by auto
    qed
  qed
qed

text \<open>Started below the cap, the inner loop is left.\<close>

lemma local_shift_search_returns:
  "t < max_trials \<Longrightarrow>
   local_shift_search draws shift_roi irs lsr fo fs cpl t rs pos \<noteq> None"
proof (induction draws shift_roi irs lsr fo fs cpl t rs pos rule: local_shift_search.induct)
  case (1 draws shift_roi irs lsr fo fs cpl t rs pos)
  show ?case
  proof (cases "random_coordinate draws pos (get_begin lsr) (get_end lsr)")
    case (Inl e)
    with "1.prems" show ?thesis
      by (subst local_shift_search.simps) simp
  next
    case (Inr v)
    obtain ls p where v: "v = (ls, p)" by (cases v)
    show ?thesis
    proof (cases "contains shift_roi (coord_add irs ls) \<or> t + 1 = max_trials")
      case True
      with "1.prems" Inr v show ?thesis
        by (subst local_shift_search.simps) auto
    next
      case False
      with "1.prems" have "t + 1 < max_trials" by simp
      from "1.IH" [OF _ Inr v [symmetric] _ _ this] "1.prems" False
      have "local_shift_search draws shift_roi irs lsr fo fs cpl (t + 1) rs p \<noteq> None"
        by simp
      with "1.prems" Inr v False show ?thesis
        by (subst local_shift_search.simps) auto
    qed
  qed
qed

text \<open>
  Where no local shift of the range leads into the feasible region, the inner loop runs
  through all its trials and leaves \<open>random_shift\<close> as it was.
\<close>

lemma coord_add_commute: "coord_add a b = coord_add b a"
  by (cases a; cases b) simp

lemma local_shift_search_exhausts:
  assumes none: "\<And>ls. coord_le (get_begin lsr) ls \<Longrightarrow> coord_le ls (get_end lsr) \<Longrightarrow>
                 \<not> contains shift_roi (coord_add irs ls)"
    and nonempty: "coord_le (get_begin lsr) (get_end lsr)"
    and "t < max_trials"
  shows "local_shift_search draws shift_roi irs lsr fo fs cpl t rs pos
           = Some (Inr (rs, False, max_trials, pos + 3 * (max_trials - t)))"
  using assms(3)
proof (induction "max_trials - t" arbitrary: t pos)
  case 0
  then show ?case by simp
next
  case (Suc n)
  from random_coordinate_ok [OF nonempty] obtain ls where
    rc: "random_coordinate draws pos (get_begin lsr) (get_end lsr) = Inr (ls, pos + 3)"
    by blast
  from random_coordinate_range [OF rc] none have nc: "\<not> contains shift_roi (coord_add irs ls)"
    by blast
  show ?case
  proof (cases "t + 1 = max_trials")
    case True
    with Suc.prems rc nc show ?thesis
      by (subst local_shift_search.simps) simp
  next
    case False
    with Suc.prems have lt: "t + 1 < max_trials" by simp
    from Suc.hyps(2) have "n = max_trials - (t + 1)" by simp
    from Suc.hyps(1) [OF this lt, of "pos + 3"] have
      "local_shift_search draws shift_roi irs lsr fo fs cpl (t + 1) rs (pos + 3)
         = Some (Inr (rs, False, max_trials, pos + 3 + 3 * (max_trials - (t + 1))))" .
    moreover from lt have "pos + 3 + 3 * (max_trials - (t + 1)) = pos + 3 * (max_trials - t)"
      by simp
    ultimately show ?thesis
      using Suc.prems rc nc False
      by (subst local_shift_search.simps) simp
  qed
qed

section \<open>process: the loops\<close>

lemma reset_rois_result:
  assumes "distinct (map fst specs)" and "reset_rois specs m = Inr m'"
  shows "(\<forall>(k, sp) \<in> set specs. \<exists>a. m k = Some a
            \<and> m' k = Some (a\<lparr>spec := (spec a)\<lparr>roi := roi sp\<rparr>\<rparr>))
       \<and> (\<forall>k. k \<notin> fst ` set specs \<longrightarrow> m' k = m k)"
  using assms
proof (induction specs arbitrary: m)
  case Nil
  then show ?case by simp
next
  case (Cons it specs)
  obtain k sp where it: "it = (k, sp)" by (cases it)
  from Cons.prems obtain a where
    a: "m k = Some a" and
    rest: "reset_rois specs (m(k \<mapsto> a\<lparr>spec := (spec a)\<lparr>roi := roi sp\<rparr>\<rparr>)) = Inr m'" and
    d: "distinct (map fst specs)" and nk: "k \<notin> fst ` set specs"
    by (auto simp: it split: option.splits)
  note ih = Cons.IH [OF d rest]
  from ih nk have here: "m' k = Some (a\<lparr>spec := (spec a)\<lparr>roi := roi sp\<rparr>\<rparr>)"
    by simp
  have others: "\<exists>b. m k' = Some b \<and> m' k' = Some (b\<lparr>spec := (spec b)\<lparr>roi := roi sp'\<rparr>\<rparr>)"
    if "(k', sp') \<in> set specs" for k' sp'
  proof -
    from that nk have "k' \<noteq> k" by force
    with ih that show ?thesis by fastforce
  qed
  from ih have out: "m' k' = m k'" if "k' \<notin> fst ` set (it # specs)" for k'
    using that by (simp add: it)
  from a here others out show ?case
    by (auto simp: it)
qed

lemma reset_rois_ok:
  "\<forall>k \<in> fst ` set specs. m k \<noteq> None \<Longrightarrow> \<exists>m'. reset_rois specs m = Inr m'"
proof (induction specs arbitrary: m)
  case Nil
  then show ?case by simp
next
  case (Cons it specs)
  obtain k sp where it: "it = (k, sp)" by (cases it)
  from Cons.prems obtain a where a: "m k = Some a" by (auto simp: it)
  have p: "\<forall>k' \<in> fst ` set specs. (m(k \<mapsto> a\<lparr>spec := (spec a)\<lparr>roi := roi sp\<rparr>\<rparr>)) k' \<noteq> None"
    using Cons.prems by (auto simp: it)
  from Cons.IH [of "m(k \<mapsto> a\<lparr>spec := (spec a)\<lparr>roi := roi sp\<rparr>\<rparr>)", OF p] obtain m' where
    r: "reset_rois specs (m(k \<mapsto> a\<lparr>spec := (spec a)\<lparr>roi := roi sp\<rparr>\<rparr>)) = Inr m'"
    by blast
  show ?case
    by (simp add: it a r)
qed

lemma shift_points_result:
  assumes "distinct ks" and "shift_points s ks m = Inr m'"
  shows "(\<forall>k \<in> set ks. \<exists>ps. m k = Some ps
            \<and> m' k = Some (ps\<lparr>data := map (\<lambda>(point_id, location). (point_id, coord_sub location s))
                                        (data ps)\<rparr>))
       \<and> (\<forall>k. k \<notin> set ks \<longrightarrow> m' k = m k)"
  using assms
proof (induction ks arbitrary: m)
  case Nil
  then show ?case by simp
next
  case (Cons k ks)
  from Cons.prems obtain ps where
    ps: "m k = Some ps" and
    rest: "shift_points s ks
             (m(k \<mapsto> ps\<lparr>data := map (\<lambda>(point_id, location). (point_id, coord_sub location s))
                                   (data ps)\<rparr>)) = Inr m'" and
    d: "distinct ks" and nk: "k \<notin> set ks"
    by (auto split: option.splits)
  note ih = Cons.IH [OF d rest]
  from ih nk have here:
    "m' k = Some (ps\<lparr>data := map (\<lambda>(point_id, location). (point_id, coord_sub location s)) (data ps)\<rparr>)"
    by simp
  have others: "\<exists>qs. m k' = Some qs
     \<and> m' k' = Some (qs\<lparr>data := map (\<lambda>(point_id, location). (point_id, coord_sub location s)) (data qs)\<rparr>)"
    if "k' \<in> set ks" for k'
  proof -
    from that nk have "k' \<noteq> k" by force
    with ih that show ?thesis by fastforce
  qed
  from ih have out: "m' k' = m k'" if "k' \<notin> set (k # ks)" for k'
    using that by simp
  from ps here others out show ?case
    by auto
qed

lemma shift_points_ok:
  "\<forall>k \<in> set ks. m k \<noteq> None \<Longrightarrow> \<exists>m'. shift_points s ks m = Inr m'"
proof (induction ks arbitrary: m)
  case Nil
  then show ?case by simp
next
  case (Cons k ks)
  from Cons.prems obtain ps where ps: "m k = Some ps" by auto
  have p: "\<forall>k' \<in> set ks.
          (m(k \<mapsto> ps\<lparr>data := map (\<lambda>(point_id, location). (point_id, coord_sub location s))
                                (data ps)\<rparr>)) k' \<noteq> None"
    using Cons.prems by auto
  from Cons.IH [of "m(k \<mapsto> ps\<lparr>data := map (\<lambda>(point_id, location). (point_id, coord_sub location s))
                                (data ps)\<rparr>)", OF p] obtain m' where
    r: "shift_points s ks
          (m(k \<mapsto> ps\<lparr>data := map (\<lambda>(point_id, location). (point_id, coord_sub location s))
                                (data ps)\<rparr>)) = Inr m'"
    by blast
  show ?case
    by (simp add: ps r)
qed

lemma contains_relative:
  assumes "contains (shift froi s) ploc"
  shows "coord_le (0, 0, 0) (coord_sub (coord_sub ploc s) (offset froi))
       \<and> coord_less (coord_sub (coord_sub ploc s) (offset froi)) (shape froi)"
  using assms
  by (cases ploc; cases s; cases "offset froi"; cases "shape froi")
     (simp add: contains_def shift_def get_begin_def get_end_def)

lemma process_result:
  assumes "rl_process s batch request = Inr batch'"
  shows "\<exists>p. reset_rois (array_specs request) (arrays batch) = Inr (arrays batch')
           \<and> reset_rois (points_specs request) (points batch) = Inr p
           \<and> shift_points s (map fst (points_specs request)) p = Inr (points batch')"
  using assms by (auto simp: rl_process_def split: sum.splits)

lemma example_process:
  "rl_process (1, 1, 1) returned_batch example_request = Inr restored_batch"
  by (simp add: rl_process_def returned_batch_def restored_batch_def example_request_def)

section \<open>What prepare returns\<close>

text \<open>
  \<^verbatim>\<open>prepare\<close> returns only when \<open>ensure_nonempty\<close> is not set; the shift it
  returns is then the one that lines 136 to 140 sampled in the last pass of the loop, the
  mask check of that pass was passed, and the assertion of line 224 held for every key.
\<close>

lemma points_phase_result:
  assumes "points_phase c request s pos = Inr a"
  shows "ensure_nonempty c = None
       \<and> a = \<lparr>att_shift = s, att_mask = False, att_points = True, att_pos = pos\<rparr>"
  using assms by (auto simp: points_phase_def split: option.splits)

lemma points_phase_raises:
  assumes "ensure_nonempty c = Some k"
  shows "\<exists>e. points_phase c request s pos = Inl e"
  using assms by (auto simp: points_phase_def split: option.splits)

lemma sample_once_result:
  assumes "sample_once node request draws lcm_shift_roi lcmv pos = Inr a"
  shows "ensure_nonempty (config node) = None
       \<and> initial_shift draws pos lcm_shift_roi lcmv = Inr (att_shift a, att_pos a)
       \<and> att_points a
       \<and> mask_phase node request (att_shift a) = Inr (att_mask a)"
proof -
  from assms obtain s pos' where i: "initial_shift draws pos lcm_shift_roi lcmv = Inr (s, pos')"
    by (auto simp: sample_once_def split: sum.splits)
  from assms i obtain a0 where p: "points_phase (config node) request s pos' = Inr a0"
    by (auto simp: sample_once_def split: sum.splits)
  note r = points_phase_result [OF p]
  from assms i p obtain g where g: "mask_phase node request (att_shift a0) = Inr g"
    and a: "a = a0\<lparr>att_mask := g\<rparr>"
    by (auto simp: sample_once_def split: sum.splits)
  from r i g a show ?thesis by simp
qed

lemma sample_loop_result:
  assumes "sample_loop fuel node request draws lcm_shift_roi lcmv pos = Some (Inr a)"
  shows "\<exists>pos'. sample_once node request draws lcm_shift_roi lcmv pos' = Inr a
           \<and> att_mask a \<and> att_points a"
  using assms
  by (induction fuel arbitrary: pos) (auto split: sum.splits if_splits)

lemma prepare_result:
  assumes "rl_prepare node up request draws fuel = Some (Inr P)"
  shows "\<exists>lcmv shift_roi lcm_shift_roi pos pos'.
           lcm_voxel_size_of node request = Inr lcmv
         \<and> feasible_shift_roi node request = Inr shift_roi
         \<and> lcm_shift_roi_of shift_roi lcmv = Inr lcm_shift_roi
         \<and> ensure_nonempty (config node) = None
         \<and> initial_shift draws pos lcm_shift_roi lcmv = Inr (random_shift P, pos')
         \<and> mask_phase node request (random_shift P) = Inr True
         \<and> shift_request (upstream_roi node) (random_shift P) request = Inr (upstream_request P)"
proof -
  from assms obtain lcmv shift_roi lcm_shift_roi a where
    l: "lcm_voxel_size_of node request = Inr lcmv" and
    f: "feasible_shift_roi node request = Inr shift_roi" and
    d: "lcm_shift_roi_of shift_roi lcmv = Inr lcm_shift_roi" and
    s: "sample_loop fuel node request draws lcm_shift_roi lcmv 0 = Some (Inr a)" and
    r: "shift_request (upstream_roi node) (att_shift a) request = Inr (upstream_request P)"
       "random_shift P = att_shift a"
    by (auto simp: rl_prepare_def split: sum.splits option.splits)
  from sample_loop_result [OF s] obtain pos where
    o: "sample_once node request draws lcm_shift_roi lcmv pos = Inr a" and m: "att_mask a"
    by blast
  from sample_once_result [OF o] m l f d r show ?thesis by auto
qed

lemma ensure_nonempty_never_returns:
  assumes "ensure_nonempty (config node) = Some k"
  shows "rl_prepare node up request draws fuel \<noteq> Some (Inr P)"
proof
  assume "rl_prepare node up request draws fuel = Some (Inr P)"
  from prepare_result [OF this] assms show False by auto
qed

lemma nonempty_setup: "rl_setup nonempty_config example_upstream = Inr nonempty_node"
  by (simp add: rl_setup_def nonempty_config_def example_upstream_def plain_node_def
      nonempty_node_def active_mask_def)

text \<open>
  C4, at an input where it fails. The claim reads: with \<open>ensure_nonempty\<close> set, the
  local search makes at most 100000 trials for a sampled shift, and using them up, like
  finding no point in the shifted region, is not a fatal error: the shift is rejected and
  the outer loop samples again. The node is set up with \<open>ensure_nonempty = pts\<close> over
  the provider of shape \<open>(20,20,20)\<close>, and the request asks for \<open>raw\<close> and
  \<open>pts\<close> with shape \<open>(10,10,10)\<close>. Whatever the random draws are, the first pass
  of the loop samples a shift, reads the Roi requested for \<open>pts\<close> and raises
  \<open>NameError\<close> on line 153. \<^verbatim>\<open>prepare\<close> ends with this error whatever the
  upstream provider holds: no point is asked for, no trial is made and no shift is sampled
  again.
\<close>

theorem ensure_nonempty_raises:
  "rl_setup nonempty_config example_upstream = Inr nonempty_node
   \<and> ensure_nonempty (config nonempty_node) = Some ''pts''
   \<and> map_of (points_specs example_request) ''pts'' = Some \<lparr>roi = Some roi10, voxel_size = None\<rparr>
   \<and> feasible_shift_roi nonempty_node example_request = Inr roi10
   \<and> (\<forall>draws pos. \<exists>s pos'.
         initial_shift draws pos \<lparr>offset = (0, 0, 0), shape = (5, 5, 5)\<rparr> (Some (2, 2, 2)) = Inr (s, pos')
       \<and> points_phase (config nonempty_node) example_request s pos' = Inl NameError)
   \<and> (\<forall>up draws fuel.
         rl_prepare nonempty_node up example_request draws (Suc fuel) = Some (Inl NameError))"
proof -
  have 1: "ensure_nonempty (config nonempty_node) = Some ''pts''"
    by (simp add: nonempty_node_def nonempty_config_def)
  have 2: "map_of (points_specs example_request) ''pts'' = Some \<lparr>roi = Some roi10, voxel_size = None\<rparr>"
    by (simp add: example_request_def)
  have 3: "feasible_shift_roi nonempty_node example_request = Inr roi10"
    by (simp add: feasible_shift_roi_def items_def example_defs region_defs Let_def nonempty_node_def)
  have 4: "\<exists>s pos'.
         initial_shift draws pos \<lparr>offset = (0, 0, 0), shape = (5, 5, 5)\<rparr> (Some (2, 2, 2)) = Inr (s, pos')
       \<and> points_phase (config nonempty_node) example_request s pos' = Inl NameError" for draws pos
    by (simp add: initial_shift_def random_coordinate_def randint_def region_defs points_phase_def
        1 2)
  have 5: "rl_prepare nonempty_node up example_request draws (Suc fuel) = Some (Inl NameError)"
    for up draws fuel
    by (simp add: prepare_defs example_defs region_defs Let_def nonempty_node_def
        nonempty_config_def)
  from nonempty_setup 1 2 3 4 5 show ?thesis by blast
qed

section \<open>prepare: the voxel grid\<close>

lemma coord_mul_dvd: "coord_dvd v (coord_mul s v)"
  by (cases v; cases s) simp

lemma coord_dvd_trans: "coord_dvd a b \<Longrightarrow> coord_dvd b c \<Longrightarrow> coord_dvd a c"
  by (cases a; cases b; cases c) (auto intro: dvd_trans)

lemma coord_dvd_lcm:
  "coord_dvd a (coord_lcm a b)" "coord_dvd b (coord_lcm a b)"
  "coord_dvd a c \<Longrightarrow> coord_dvd b c \<Longrightarrow> coord_dvd (coord_lcm a b) c"
  by (cases a; cases b; cases c; simp)+

lemma get_lcm_voxel_size_multiple:
  assumes "get_lcm_voxel_size specs ks acc = Inr (Some l)"
  shows "(\<forall>a. acc = Some a \<longrightarrow> coord_dvd a l)
       \<and> (\<forall>k \<in> set ks. \<forall>s v. map_of specs k = Some s \<and> voxel_size s = Some v \<longrightarrow> coord_dvd v l)"
  using assms
proof (induction ks arbitrary: acc)
  case Nil
  then show ?case by (cases l) simp
next
  case (Cons k ks)
  from Cons.prems obtain s where s: "map_of specs k = Some s"
    by (auto split: option.splits)
  show ?case
  proof (cases "voxel_size s")
    case None
    with Cons.prems s have "get_lcm_voxel_size specs ks acc = Inr (Some l)" by simp
    from Cons.IH [OF this] s None show ?thesis by auto
  next
    case (Some v)
    let ?acc = "Some (case acc of None \<Rightarrow> v | Some a \<Rightarrow> coord_lcm a v)"
    from Cons.prems s Some have "get_lcm_voxel_size specs ks ?acc = Inr (Some l)" by simp
    note ih = Cons.IH [OF this]
    from ih have m: "coord_dvd (case acc of None \<Rightarrow> v | Some a \<Rightarrow> coord_lcm a v) l" by simp
    have v: "coord_dvd v l"
    proof (cases acc)
      case None
      with m show ?thesis by simp
    next
      case (Some a)
      with m have "coord_dvd (coord_lcm a v) l" by simp
      with coord_dvd_lcm(2) show ?thesis by (rule coord_dvd_trans)
    qed
    have a: "coord_dvd a l" if "acc = Some a" for a
    proof -
      from m that have "coord_dvd (coord_lcm a v) l" by simp
      with coord_dvd_lcm(1) show ?thesis by (rule coord_dvd_trans)
    qed
    from ih v a s Some show ?thesis by auto
  qed
qed

lemma get_lcm_voxel_size_least:
  assumes "get_lcm_voxel_size specs ks acc = Inr (Some l)"
    and "\<And>a. acc = Some a \<Longrightarrow> coord_dvd a c"
    and "\<And>k s v. k \<in> set ks \<Longrightarrow> map_of specs k = Some s \<Longrightarrow> voxel_size s = Some v \<Longrightarrow> coord_dvd v c"
  shows "coord_dvd l c"
  using assms
proof (induction ks arbitrary: acc)
  case Nil
  then show ?case by simp
next
  case (Cons k ks)
  from Cons.prems(1) obtain s where s: "map_of specs k = Some s"
    by (auto split: option.splits)
  show ?case
  proof (cases "voxel_size s")
    case None
    with Cons.prems(1) s have g: "get_lcm_voxel_size specs ks acc = Inr (Some l)" by simp
    show ?thesis
    proof (rule Cons.IH [OF g])
      fix a assume "acc = Some a"
      then show "coord_dvd a c" by (rule Cons.prems(2))
    next
      fix k' s' v' assume "k' \<in> set ks" "map_of specs k' = Some s'" "voxel_size s' = Some v'"
      then show "coord_dvd v' c" using Cons.prems(3) [of k' s' v'] by simp
    qed
  next
    case (Some v)
    let ?acc = "Some (case acc of None \<Rightarrow> v | Some a \<Rightarrow> coord_lcm a v)"
    from Cons.prems(1) s Some have g: "get_lcm_voxel_size specs ks ?acc = Inr (Some l)" by simp
    have v: "coord_dvd v c" using Cons.prems(3) [OF _ s Some] by simp
    have m: "coord_dvd (case acc of None \<Rightarrow> v | Some a \<Rightarrow> coord_lcm a v) c"
    proof (cases acc)
      case None
      with v show ?thesis by simp
    next
      case (Some a)
      then have "coord_dvd a c" by (rule Cons.prems(2))
      from this v have "coord_dvd (coord_lcm a v) c" by (rule coord_dvd_lcm(3))
      with Some show ?thesis by simp
    qed
    show ?thesis
    proof (rule Cons.IH [OF g])
      fix a assume "?acc = Some a"
      with m show "coord_dvd a c" by simp
    next
      fix k' s' v' assume "k' \<in> set ks" "map_of specs k' = Some s'" "voxel_size s' = Some v'"
      then show "coord_dvd v' c" using Cons.prems(3) [of k' s' v'] by simp
    qed
  qed
qed

lemma initial_shift_result:
  assumes "initial_shift draws pos lcm_shift_roi lcmv = Inr (s, pos')"
  shows "\<exists>x. contains lcm_shift_roi x
           \<and> s = (case lcmv of None \<Rightarrow> x | Some l \<Rightarrow> coord_mul x l)"
proof -
  from assms obtain x where
    x: "random_coordinate draws pos (get_begin lcm_shift_roi)
          (coord_sub (get_end lcm_shift_roi) (1, 1, 1)) = Inr (x, pos')" and
    s: "s = (case lcmv of None \<Rightarrow> x | Some l \<Rightarrow> coord_mul x l)"
    by (auto simp: initial_shift_def split: sum.splits)
  from random_coordinate_range [OF x] have "contains lcm_shift_roi x"
    by (cases x; cases "get_end lcm_shift_roi"; cases "get_begin lcm_shift_roi")
       (auto simp: contains_def)
  with s show ?thesis by blast
qed

lemma example_prepare:
  "rl_prepare plain_node example_upstream example_request counting_draws 1 =
     Some (Inr \<lparr>random_shift = (2, 4, 6),
                upstream_request =
                  \<lparr>array_specs = [(''raw'', \<lparr>roi = Some \<lparr>offset = (2, 4, 6), shape = (10, 10, 10)\<rparr>,
                                             voxel_size = Some (2, 2, 2)\<rparr>)],
                   points_specs = [(''pts'', \<lparr>roi = Some \<lparr>offset = (2, 4, 6), shape = (10, 10, 10)\<rparr>,
                                              voxel_size = None\<rparr>)]\<rparr>\<rparr>)"
  by (simp add: prepare_defs example_defs region_defs Let_def)

lemma example_lcm: "lcm_voxel_size_of plain_node example_request = Inr (Some (2, 2, 2))"
  by (simp add: lcm_voxel_size_of_def example_defs clear_rois_def clear_roi_def)

text \<open>
  C6. Let \<^verbatim>\<open>prepare\<close> return for a request with array specs for which
  \<^verbatim>\<open>get_lcm_voxel_size\<close> yields \<open>l\<close>. Then \<open>l\<close> is the least common multiple
  of the voxel sizes of the requested arrays: every one of them divides \<open>l\<close>, and
  \<open>l\<close> divides every coordinate that all of them divide. The shift that
  \<^verbatim>\<open>prepare\<close> returns is \<open>x * l\<close> for a point \<open>x\<close> inside the feasible
  region divided by \<open>l\<close>; so it is, component by component, a multiple of \<open>l\<close>.
\<close>

theorem shift_on_voxel_grid:
  assumes "rl_prepare node up request draws fuel = Some (Inr P)"
    and "lcm_voxel_size_of node request = Inr (Some l)"
  shows "(\<forall>(k, sp) \<in> set (array_specs request).
            \<forall>own v. map_of (array_specs (node_spec node)) k = Some own \<and> voxel_size own = Some v
              \<longrightarrow> coord_dvd v l)
       \<and> (\<forall>c. (\<forall>(k, sp) \<in> set (array_specs request).
                  \<forall>own v. map_of (array_specs (node_spec node)) k = Some own \<and> voxel_size own = Some v
                    \<longrightarrow> coord_dvd v c)
              \<longrightarrow> coord_dvd l c)
       \<and> (\<exists>shift_roi lcm_shift_roi x.
             feasible_shift_roi node request = Inr shift_roi
           \<and> roi_div shift_roi l = Inr lcm_shift_roi
           \<and> contains lcm_shift_roi x
           \<and> random_shift P = coord_mul x l)
       \<and> coord_dvd l (random_shift P)"
proof -
  from assms(2) have g: "get_lcm_voxel_size (array_specs (node_spec node))
                           (map fst (array_specs request)) None = Inr (Some l)"
    by (auto simp: lcm_voxel_size_of_def split: if_splits)
  have 1: "\<forall>(k, sp) \<in> set (array_specs request).
            \<forall>own v. map_of (array_specs (node_spec node)) k = Some own \<and> voxel_size own = Some v
              \<longrightarrow> coord_dvd v l"
    using get_lcm_voxel_size_multiple [OF g] by force
  have 2: "coord_dvd l c"
    if "\<forall>(k, sp) \<in> set (array_specs request).
                  \<forall>own v. map_of (array_specs (node_spec node)) k = Some own \<and> voxel_size own = Some v
                    \<longrightarrow> coord_dvd v c" for c
    using that by (intro get_lcm_voxel_size_least [OF g]) auto
  from prepare_result [OF assms(1)] assms(2) obtain shift_roi lcm_shift_roi pos pos' where
    f: "feasible_shift_roi node request = Inr shift_roi" and
    d: "lcm_shift_roi_of shift_roi (Some l) = Inr lcm_shift_roi" and
    i: "initial_shift draws pos lcm_shift_roi (Some l) = Inr (random_shift P, pos')"
    by auto
  from initial_shift_result [OF i] obtain x where
    x: "contains lcm_shift_roi x" "random_shift P = coord_mul x l"
    by auto
  from d have d': "roi_div shift_roi l = Inr lcm_shift_roi"
    by (simp add: lcm_shift_roi_of_def)
  have 4: "coord_dvd l (random_shift P)"
    by (simp add: x(2) coord_mul_dvd)
  from 1 2 f d' x 4 show ?thesis by blast
qed

theorem shift_on_voxel_grid_witness:
  "rl_prepare plain_node example_upstream example_request counting_draws 1 =
     Some (Inr \<lparr>random_shift = (2, 4, 6),
                upstream_request =
                  \<lparr>array_specs = [(''raw'', \<lparr>roi = Some \<lparr>offset = (2, 4, 6), shape = (10, 10, 10)\<rparr>,
                                             voxel_size = Some (2, 2, 2)\<rparr>)],
                   points_specs = [(''pts'', \<lparr>roi = Some \<lparr>offset = (2, 4, 6), shape = (10, 10, 10)\<rparr>,
                                              voxel_size = None\<rparr>)]\<rparr>\<rparr>)
   \<and> lcm_voxel_size_of plain_node example_request = Inr (Some (2, 2, 2))
   \<and> feasible_shift_roi plain_node example_request = Inr roi10
   \<and> roi_div roi10 (2, 2, 2) = Inr \<lparr>offset = (0, 0, 0), shape = (5, 5, 5)\<rparr>
   \<and> contains \<lparr>offset = (0, 0, 0), shape = (5, 5, 5)\<rparr> (1, 2, 3)
   \<and> (2, 4, 6) = coord_mul (1, 2, 3) (2, 2, 2)
   \<and> coord_dvd (2, 2, 2) (2, 4, 6)"
proof -
  note t = shift_on_voxel_grid [OF example_prepare example_lcm]
  from t have 1: "coord_dvd (2, 2, 2) (random_shift \<lparr>random_shift = (2, 4, 6),
                upstream_request =
                  \<lparr>array_specs = [(''raw'', \<lparr>roi = Some \<lparr>offset = (2, 4, 6), shape = (10, 10, 10)\<rparr>,
                                             voxel_size = Some (2, 2, 2)\<rparr>)],
                   points_specs = [(''pts'', \<lparr>roi = Some \<lparr>offset = (2, 4, 6), shape = (10, 10, 10)\<rparr>,
                                              voxel_size = None\<rparr>)]\<rparr>\<rparr>)"
    by blast
  have 2: "feasible_shift_roi plain_node example_request = Inr roi10"
    by (simp add: feasible_shift_roi_def items_def example_defs region_defs Let_def)
  have 3: "roi_div roi10 (2, 2, 2) = Inr \<lparr>offset = (0, 0, 0), shape = (5, 5, 5)\<rparr>"
    by (simp add: roi_div_def roi10_def)
  have 4: "contains \<lparr>offset = (0, 0, 0), shape = (5, 5, 5)\<rparr> (1, 2, 3)"
    by (simp add: region_defs)
  from 1 2 3 4 example_prepare example_lcm show ?thesis by simp
qed

section \<open>prepare: where the feasible-shift region goes wrong\<close>

text \<open>
  The region of one key, written out: its offset is the offset of the provided Roi minus
  the begin of the requested Roi, and its shape is the shape of the provided Roi minus the
  shape of the requested one. A shift lies in the region that the loop computes exactly
  when, for every item of the request, the requested Roi shifted begins at or after the
  begin of the provided Roi and ends before its end.
\<close>

lemma type_shift_roi_formula:
  "type_shift_roi provided_roi request_roi =
     \<lparr>offset = coord_sub (offset provided_roi) (offset request_roi),
      shape = coord_sub (shape provided_roi) (shape request_roi)\<rparr>"
  by (cases "offset provided_roi"; cases "shape provided_roi";
      cases "offset request_roi"; cases "shape request_roi")
     (simp add: type_shift_roi_def grow_def shift_def get_begin_def)

lemma key_admits_explicit:
  "key_admits up (k, sp) s =
     (\<exists>provided provided_roi request_roi.
        lookup_spec up k = Some provided \<and> roi provided = Some provided_roi
      \<and> roi sp = Some request_roi
      \<and> coord_le (coord_sub (offset provided_roi) (offset request_roi)) s
      \<and> coord_less (coord_add s (coord_add (offset request_roi) (shape request_roi)))
           (coord_add (offset provided_roi) (shape provided_roi)))"
proof -
  have c: "contains (type_shift_roi p r) s =
        (coord_le (coord_sub (offset p) (offset r)) s
         \<and> coord_less (coord_add s (coord_add (offset r) (shape r)))
              (coord_add (offset p) (shape p)))" for p r
    by (cases s; cases "offset p"; cases "shape p"; cases "offset r"; cases "shape r")
       (auto simp: type_shift_roi_formula contains_def get_begin_def get_end_def)
  show ?thesis
    by (auto simp: key_admits_def c split: option.splits)
qed

lemma shift_roi_explicit:
  assumes "shift_roi_loop up (items request) None = Inr (Some shift_roi)"
  shows "contains shift_roi s =
     (\<forall>(k, sp) \<in> set (items request).
        \<exists>provided provided_roi request_roi.
          lookup_spec up k = Some provided \<and> roi provided = Some provided_roi
        \<and> roi sp = Some request_roi
        \<and> coord_le (coord_sub (offset provided_roi) (offset request_roi)) s
        \<and> coord_less (coord_add s (coord_add (offset request_roi) (shape request_roi)))
             (coord_add (offset provided_roi) (shape provided_roi)))"
proof -
  have "key_admits up it s =
     (\<exists>provided provided_roi request_roi.
          lookup_spec up (fst it) = Some provided \<and> roi provided = Some provided_roi
        \<and> roi (snd it) = Some request_roi
        \<and> coord_le (coord_sub (offset provided_roi) (offset request_roi)) s
        \<and> coord_less (coord_add s (coord_add (offset request_roi) (shape request_roi)))
             (coord_add (offset provided_roi) (shape provided_roi)))" for it
    using key_admits_explicit [of up "fst it" "snd it" s] by simp
  with shift_roi_loop_contains [OF assms, of s] show ?thesis
    by (simp add: case_prod_unfold)
qed




section \<open>prepare without constraints\<close>



text \<open>
  A point of the divided region, multiplied back, lies in the feasible region when the
  region begins on the grid.
\<close>

lemma grid_point_in_range:
  fixes l :: int
  assumes "0 < l" and "l dvd b" and "b div l \<le> x" and "x < b div l + h div l"
  shows "b \<le> x * l \<and> x * l < b + h"
proof -
  from assms(2) have b: "b = b div l * l" by simp
  from assms(1,3) have "b div l * l \<le> x * l" by (simp add: mult_right_mono)
  with b have lo: "b \<le> x * l" by simp
  from assms(4) have "x + 1 \<le> b div l + h div l" by simp
  with assms(1) have "(x + 1) * l \<le> (b div l + h div l) * l" by (simp add: mult_right_mono)
  then have "x * l + l \<le> b div l * l + h div l * l" by (simp add: algebra_simps)
  moreover have "h div l * l \<le> h"
  proof -
    have "h div l * l + h mod l = h" by (rule div_mult_mod_eq)
    moreover from assms(1) have "0 \<le> h mod l" by (rule pos_mod_sign)
    ultimately show ?thesis by linarith
  qed
  ultimately have "x * l + l \<le> b + h" using b by linarith
  with assms(1) lo show ?thesis by linarith
qed

lemma initial_shift_in_region:
  assumes "coord_less (0, 0, 0) l" and "coord_dvd l (offset shift_roi)"
    and "roi_div shift_roi l = Inr lcm_shift_roi"
    and "initial_shift draws pos lcm_shift_roi (Some l) = Inr (s, pos')"
  shows "contains shift_roi s"
proof -
  from initial_shift_result [OF assms(4)] obtain x where
    x: "contains lcm_shift_roi x" "s = coord_mul x l"
    by auto
  obtain l1 l2 l3 where l: "l = (l1, l2, l3)" by (cases l)
  obtain b1 b2 b3 where b: "offset shift_roi = (b1, b2, b3)" by (cases "offset shift_roi")
  obtain h1 h2 h3 where h: "shape shift_roi = (h1, h2, h3)" by (cases "shape shift_roi")
  obtain x1 x2 x3 where xc: "x = (x1, x2, x3)" by (cases x)
  from assms(1) have p: "0 < l1" "0 < l2" "0 < l3" by (simp_all add: l)
  from assms(2) have d: "l1 dvd b1" "l2 dvd b2" "l3 dvd b3" by (simp_all add: l b)
  from assms(3) p have lsr: "lcm_shift_roi = \<lparr>offset = (b1 div l1, b2 div l2, b3 div l3),
                                            shape = (h1 div l1, h2 div l2, h3 div l3)\<rparr>"
    by (auto simp: roi_div_def l b h)
  from x(1) have r: "b1 div l1 \<le> x1" "x1 < b1 div l1 + h1 div l1"
                    "b2 div l2 \<le> x2" "x2 < b2 div l2 + h2 div l2"
                    "b3 div l3 \<le> x3" "x3 < b3 div l3 + h3 div l3"
    by (simp_all add: lsr xc contains_def get_begin_def get_end_def)
  note g1 = grid_point_in_range [OF p(1) d(1) r(1,2)]
  note g2 = grid_point_in_range [OF p(2) d(2) r(3,4)]
  note g3 = grid_point_in_range [OF p(3) d(3) r(5,6)]
  from g1 g2 g3 show ?thesis
    by (simp add: x(2) xc l contains_def get_begin_def get_end_def b h)
qed

lemma initial_shift_returns:
  assumes "coord_less (0, 0, 0) (shape lcm_shift_roi)"
  shows "\<exists>s. initial_shift draws pos lcm_shift_roi lcmv = Inr (s, pos + 3)"
proof -
  have "coord_le (get_begin lcm_shift_roi) (coord_sub (get_end lcm_shift_roi) (1, 1, 1))"
    using assms
    by (cases "offset lcm_shift_roi"; cases "shape lcm_shift_roi")
       (simp add: get_begin_def get_end_def)
  from random_coordinate_ok [OF this] obtain c where
    "random_coordinate draws pos (get_begin lcm_shift_roi)
       (coord_sub (get_end lcm_shift_roi) (1, 1, 1)) = Inr (c, pos + 3)"
    by blast
  then have "initial_shift draws pos lcm_shift_roi lcmv
               = Inr (case lcmv of None \<Rightarrow> c | Some v \<Rightarrow> coord_mul c v, pos + 3)"
    by (simp add: initial_shift_def)
  then show ?thesis ..
qed

lemma shift_specs_returns:
  assumes "\<forall>(k, sp) \<in> set xs. \<exists>r. roi sp = Some r \<and> contains_roi uroi (shift r s)"
  shows "\<exists>ys. shift_specs uroi s xs = Inr ys"
  using assms
proof (induction xs)
  case Nil
  then show ?case by simp
next
  case (Cons it xs)
  obtain k sp where it: "it = (k, sp)" by (cases it)
  from Cons.prems obtain r where r: "roi sp = Some r" "contains_roi uroi (shift r s)"
    by (auto simp: it)
  from Cons.prems have "\<forall>(k, sp) \<in> set xs. \<exists>r. roi sp = Some r \<and> contains_roi uroi (shift r s)"
    by simp
  from Cons.IH [OF this] obtain ys where "shift_specs uroi s xs = Inr ys" ..
  with r show ?case by (simp add: it)
qed

lemma contains_roi_trans:
  "contains_roi a b \<Longrightarrow> contains_roi b c \<Longrightarrow> contains_roi a c"
  by (cases "offset a"; cases "shape a"; cases "offset b"; cases "shape b";
      cases "offset c"; cases "shape c")
     (auto simp: contains_roi_def get_begin_def get_end_def)

lemma feasible_shift_roi_loop:
  "feasible_shift_roi node request = Inr shift_roi \<Longrightarrow>
   shift_roi_loop (upstream_spec node) (items request) None = Inr (Some shift_roi)
   \<and> 0 < roi_size shift_roi"
  by (auto simp: feasible_shift_roi_def split: sum.splits option.splits if_splits)

text \<open>
  A shift of the feasible region keeps the Roi requested for every key inside the Roi that
  upstream provides for this key.
\<close>

lemma feasible_shift_inside:
  assumes "feasible_shift_roi node request = Inr shift_roi"
    and "contains shift_roi s"
    and "(k, sp) \<in> set (items request)"
  shows "\<exists>provided provided_roi request_roi.
           lookup_spec (upstream_spec node) k = Some provided \<and> roi provided = Some provided_roi
         \<and> roi sp = Some request_roi
         \<and> contains_roi provided_roi (shift request_roi s)"
proof -
  from feasible_shift_roi_loop [OF assms(1)] have
    l: "shift_roi_loop (upstream_spec node) (items request) None = Inr (Some shift_roi)" ..
  from shift_roi_loop_contains [OF l, of s] assms(2,3) have
    "key_admits (upstream_spec node) (k, sp) s" by auto
  then obtain p pr rr where
    p: "lookup_spec (upstream_spec node) k = Some p" "roi p = Some pr" "roi sp = Some rr"
       "contains (type_shift_roi pr rr) s"
    by (auto simp: key_admits_def split: option.splits)
  from type_shift_roi_inside [OF p(4)] p(1-3) show ?thesis by blast
qed

text \<open>
  Where the code does choose a shift. With no constraint, with a feasible region that
  has room for one step of the grid along every axis and begins on the grid, and with
  every provided Roi inside the total Roi of upstream, \<^verbatim>\<open>prepare\<close> returns after one
  pass; the shift it returns lies in the feasible region.
\<close>

lemma unconstrained_prepare_returns:
  assumes "active_mask (config node) = None" and "ensure_nonempty (config node) = None"
    and "lcm_voxel_size_of node request = Inr lcmv"
    and "feasible_shift_roi node request = Inr shift_roi"
    and "case lcmv of
           None \<Rightarrow> coord_less (0, 0, 0) (shape shift_roi)
         | Some l \<Rightarrow> coord_less (0, 0, 0) l \<and> coord_dvd l (offset shift_roi)
                      \<and> coord_le l (shape shift_roi)"
    and "\<forall>(k, sp) \<in> set (items request).
           \<forall>provided provided_roi.
             lookup_spec (upstream_spec node) k = Some provided \<and> roi provided = Some provided_roi
             \<longrightarrow> contains_roi (upstream_roi node) provided_roi"
  shows "\<exists>P. rl_prepare node up request draws (Suc fuel) = Some (Inr P)
           \<and> contains shift_roi (random_shift P)"
proof -
  obtain lsr where d: "lcm_shift_roi_of shift_roi lcmv = Inr lsr"
    and pos: "coord_less (0, 0, 0) (shape lsr)"
  proof (cases lcmv)
    case None
    with assms(5) that [of shift_roi] show ?thesis
      by (simp add: lcm_shift_roi_of_def)
  next
    case (Some l)
    obtain l1 l2 l3 where l: "l = (l1, l2, l3)" by (cases l)
    obtain b1 b2 b3 where b: "offset shift_roi = (b1, b2, b3)" by (cases "offset shift_roi")
    obtain h1 h2 h3 where h: "shape shift_roi = (h1, h2, h3)" by (cases "shape shift_roi")
    from assms(5) Some have p: "0 < l1" "0 < l2" "0 < l3" "l1 \<le> h1" "l2 \<le> h2" "l3 \<le> h3"
      by (simp_all add: l h)
    then have "0 < h1 div l1" "0 < h2 div l2" "0 < h3 div l3"
      by (simp_all add: pos_imp_zdiv_pos_iff)
    with p that [of "\<lparr>offset = (b1 div l1, b2 div l2, b3 div l3),
                      shape = (h1 div l1, h2 div l2, h3 div l3)\<rparr>"] Some
    show ?thesis
      by (simp add: lcm_shift_roi_of_def roi_div_def l b h)
  qed
  from initial_shift_returns [OF pos] obtain s where
    i: "initial_shift draws 0 lsr lcmv = Inr (s, 0 + 3)" by blast
  have c: "contains shift_roi s"
  proof (cases lcmv)
    case None
    with d have "lsr = shift_roi" by (simp add: lcm_shift_roi_of_def)
    with initial_shift_result [OF i] None show ?thesis by auto
  next
    case (Some l)
    with d have "roi_div shift_roi l = Inr lsr" by (simp add: lcm_shift_roi_of_def)
    with assms(5) i Some show ?thesis
      by (auto intro: initial_shift_in_region)
  qed
  let ?a = "\<lparr>att_shift = s, att_mask = True, att_points = True, att_pos = 0 + 3\<rparr>"
  have o: "sample_once node request draws lsr lcmv 0 = Inr ?a"
    by (simp add: sample_once_def i points_phase_def mask_phase_def assms(1,2))
  then have sl: "sample_loop (Suc fuel) node request draws lsr lcmv 0 = Some (Inr ?a)"
    by simp
  have inside: "\<exists>r. roi sp = Some r \<and> contains_roi (upstream_roi node) (shift r s)"
    if "(k, sp) \<in> set (items request)" for k sp
  proof -
    from feasible_shift_inside [OF assms(4) c that] obtain p pr rr where
      p: "lookup_spec (upstream_spec node) k = Some p" "roi p = Some pr" "roi sp = Some rr"
         "contains_roi pr (shift rr s)"
      by blast
    from assms(6) that p(1,2) have "contains_roi (upstream_roi node) pr" by blast
    from contains_roi_trans [OF this p(4)] p(3) show ?thesis by simp
  qed
  have "\<forall>(k, sp) \<in> set (array_specs request).
          \<exists>r. roi sp = Some r \<and> contains_roi (upstream_roi node) (shift r s)"
    using inside by (force simp: items_def)
  from shift_specs_returns [OF this] obtain ya where
    ya: "shift_specs (upstream_roi node) s (array_specs request) = Inr ya" ..
  have "\<forall>(k, sp) \<in> set (points_specs request).
          \<exists>r. roi sp = Some r \<and> contains_roi (upstream_roi node) (shift r s)"
    using inside by (force simp: items_def)
  from shift_specs_returns [OF this] obtain yp where
    yp: "shift_specs (upstream_roi node) s (points_specs request) = Inr yp" ..
  have "rl_prepare node up request draws (Suc fuel)
          = Some (Inr \<lparr>random_shift = s,
                        upstream_request = \<lparr>array_specs = ya, points_specs = yp\<rparr>\<rparr>)"
    using sl by (simp add: rl_prepare_def assms(3,4) d shift_request_def ya yp del: sample_loop.simps)
  with c show ?thesis by simp
qed

section \<open>process\<close>

text \<open>
  What the assertion of lines 174 and 175 says of a local shift that the inner loop
  accepts: the chosen point lies in the requested Roi shifted by the new shift.
\<close>

lemma local_shift_search_accepts:
  assumes "local_shift_search draws shift_roi irs lsr fo fs cpl t rs pos
             = Some (Inr (rs', True, t', pos'))"
  shows "contains shift_roi rs' \<and> contains (shift \<lparr>offset = fo, shape = fs\<rparr> rs') cpl
       \<and> t' < max_trials"
proof -
  have "shift \<lparr>offset = fo, shape = fs\<rparr> rs' = \<lparr>offset = coord_add rs' fo, shape = fs\<rparr>"
    by (simp add: shift_def coord_add_commute)
  with local_shift_search_result [OF assms] show ?thesis by auto
qed

text \<open>
  C5. Let the keys of the request be distinct, as the keys of a dictionary are.
  \<^verbatim>\<open>process\<close> returns whenever the batch holds every requested key. When it
  returns, the Roi of every requested array and point set is the one of the request and
  the shift has been subtracted from every point location of the requested point sets.
  A point that the batch holds at a location inside the requested Roi shifted by the shift
  is held afterwards at a location that, taken relative to the offset of the point set's
  Roi, lies in \<open>[0, requested_shape)\<close>. This is the situation of the point chosen for
  \<open>ensure_nonempty\<close>, which lines 174 and 175 assert to lie in the shifted Roi; in this
  file no \<^verbatim>\<open>prepare\<close> with \<open>ensure_nonempty\<close> set returns, so the statement is
  made for every point of the batch.
\<close>

theorem process_restores_frame:
  assumes "distinct (map fst (array_specs request))"
    and "distinct (map fst (points_specs request))"
  shows "((\<forall>k \<in> set (map fst (array_specs request)). arrays batch k \<noteq> None)
          \<and> (\<forall>k \<in> set (map fst (points_specs request)). points batch k \<noteq> None)
          \<longrightarrow> (\<exists>batch'. rl_process s batch request = Inr batch'))
       \<and> (\<forall>batch'. rl_process s batch request = Inr batch' \<longrightarrow>
            (\<forall>(k, sp) \<in> set (array_specs request).
               \<exists>a. arrays batch k = Some a
                 \<and> arrays batch' k = Some (a\<lparr>spec := (spec a)\<lparr>roi := roi sp\<rparr>\<rparr>))
          \<and> (\<forall>(k, sp) \<in> set (points_specs request).
               \<exists>ps. points batch k = Some ps
                 \<and> points batch' k
                     = Some \<lparr>spec = (spec ps)\<lparr>roi := roi sp\<rparr>,
                             data = map (\<lambda>(point_id, location). (point_id, coord_sub location s))
                                      (data ps)\<rparr>)
          \<and> (\<forall>k sp froi ps pid ploc.
                 (k, sp) \<in> set (points_specs request) \<and> roi sp = Some froi
               \<and> points batch k = Some ps \<and> (pid, ploc) \<in> set (data ps)
               \<and> contains (shift froi s) ploc \<longrightarrow>
                 (\<exists>ps'. points batch' k = Some ps' \<and> roi (spec ps') = Some froi
                    \<and> (pid, coord_sub ploc s) \<in> set (data ps')
                    \<and> coord_le (0, 0, 0) (coord_sub (coord_sub ploc s) (offset froi))
                    \<and> coord_less (coord_sub (coord_sub ploc s) (offset froi)) (shape froi))))"
proof (intro conjI impI allI)
  assume k: "(\<forall>k \<in> set (map fst (array_specs request)). arrays batch k \<noteq> None)
          \<and> (\<forall>k \<in> set (map fst (points_specs request)). points batch k \<noteq> None)"
  then obtain a where a: "reset_rois (array_specs request) (arrays batch) = Inr a"
    using reset_rois_ok [of "array_specs request" "arrays batch"] by auto
  from k obtain p where p: "reset_rois (points_specs request) (points batch) = Inr p"
    using reset_rois_ok [of "points_specs request" "points batch"] by auto
  from reset_rois_result [OF assms(2) p] have "\<forall>k \<in> set (map fst (points_specs request)). p k \<noteq> None"
    by fastforce
  from shift_points_ok [OF this] obtain p' where
    "shift_points s (map fst (points_specs request)) p = Inr p'" by blast
  with a p show "\<exists>batch'. rl_process s batch request = Inr batch'"
    by (simp add: rl_process_def)
next
  fix batch'
  assume r: "rl_process s batch request = Inr batch'"
  from process_result [OF r] obtain p where
    a: "reset_rois (array_specs request) (arrays batch) = Inr (arrays batch')" and
    p: "reset_rois (points_specs request) (points batch) = Inr p" and
    q: "shift_points s (map fst (points_specs request)) p = Inr (points batch')"
    by blast
  from reset_rois_result [OF assms(1) a]
  show arr: "\<forall>(k, sp) \<in> set (array_specs request).
               \<exists>a. arrays batch k = Some a
                 \<and> arrays batch' k = Some (a\<lparr>spec := (spec a)\<lparr>roi := roi sp\<rparr>\<rparr>)"
    by blast
  note rp = reset_rois_result [OF assms(2) p]
  note sp = shift_points_result [OF assms(2) q]
  show pts: "\<forall>(k, sp) \<in> set (points_specs request).
               \<exists>ps. points batch k = Some ps
                 \<and> points batch' k
                     = Some \<lparr>spec = (spec ps)\<lparr>roi := roi sp\<rparr>,
                             data = map (\<lambda>(point_id, location). (point_id, coord_sub location s))
                                      (data ps)\<rparr>"
  proof (intro ballI, clarify)
    fix k sp
    assume m: "(k, sp) \<in> set (points_specs request)"
    with rp obtain ps where ps: "points batch k = Some ps"
      "p k = Some (ps\<lparr>spec := (spec ps)\<lparr>roi := roi sp\<rparr>\<rparr>)"
      by fastforce
    from m have "k \<in> set (map fst (points_specs request))" by force
    with sp ps(2) have "points batch' k
       = Some ((ps\<lparr>spec := (spec ps)\<lparr>roi := roi sp\<rparr>\<rparr>)
                 \<lparr>data := map (\<lambda>(point_id, location). (point_id, coord_sub location s))
                            (data (ps\<lparr>spec := (spec ps)\<lparr>roi := roi sp\<rparr>\<rparr>))\<rparr>)"
      by fastforce
    with ps(1) show "\<exists>ps. points batch k = Some ps
                 \<and> points batch' k
                     = Some \<lparr>spec = (spec ps)\<lparr>roi := roi sp\<rparr>,
                             data = map (\<lambda>(point_id, location). (point_id, coord_sub location s))
                                      (data ps)\<rparr>"
      by simp
  qed
  fix k sp froi ps pid ploc
  assume h: "(k, sp) \<in> set (points_specs request) \<and> roi sp = Some froi
               \<and> points batch k = Some ps \<and> (pid, ploc) \<in> set (data ps)
               \<and> contains (shift froi s) ploc"
  with pts have b: "points batch' k
       = Some \<lparr>spec = (spec ps)\<lparr>roi := roi sp\<rparr>,
               data = map (\<lambda>(point_id, location). (point_id, coord_sub location s)) (data ps)\<rparr>"
    by fastforce
  from h have "(pid, coord_sub ploc s)
                 \<in> set (map (\<lambda>(point_id, location). (point_id, coord_sub location s)) (data ps))"
    by force
  with b h contains_relative [of froi s ploc]
  show "\<exists>ps'. points batch' k = Some ps' \<and> roi (spec ps') = Some froi
                    \<and> (pid, coord_sub ploc s) \<in> set (data ps')
                    \<and> coord_le (0, 0, 0) (coord_sub (coord_sub ploc s) (offset froi))
                    \<and> coord_less (coord_sub (coord_sub ploc s) (offset froi)) (shape froi)"
    by simp
qed

theorem process_restores_frame_witness:
  "distinct (map fst (array_specs example_request))
   \<and> distinct (map fst (points_specs example_request))
   \<and> arrays returned_batch ''raw'' \<noteq> None \<and> points returned_batch ''pts'' \<noteq> None
   \<and> rl_process (1, 1, 1) returned_batch example_request = Inr restored_batch
   \<and> map_option (\<lambda>a. roi (spec a)) (arrays restored_batch ''raw'') = Some (Some roi10)
   \<and> map_option (\<lambda>ps. (roi (spec ps), data ps)) (points restored_batch ''pts'')
        = Some (Some roi10, [(1, (4, 4, 4))])
   \<and> contains (shift roi10 (1, 1, 1)) (5, 5, 5)
   \<and> coord_le (0, 0, 0) (coord_sub (coord_sub (5, 5, 5) (1, 1, 1)) (offset roi10))
   \<and> coord_less (coord_sub (coord_sub (5, 5, 5) (1, 1, 1)) (offset roi10)) (shape roi10)"
proof -
  have d: "distinct (map fst (array_specs example_request))"
          "distinct (map fst (points_specs example_request))"
    by (simp_all add: example_request_def)
  note t = process_restores_frame [OF d, of returned_batch "(1, 1, 1)"]
  have k: "arrays returned_batch ''raw'' \<noteq> None" "points returned_batch ''pts'' \<noteq> None"
    by (simp_all add: returned_batch_def)
  have m: "(''raw'', \<lparr>roi = Some roi10, voxel_size = Some (2, 2, 2)\<rparr>) \<in> set (array_specs example_request)"
          "(''pts'', \<lparr>roi = Some roi10, voxel_size = None\<rparr>) \<in> set (points_specs example_request)"
    by (simp_all add: example_request_def)
  from t example_process m(1) have
    "\<exists>a. arrays returned_batch ''raw'' = Some a
       \<and> arrays restored_batch ''raw''
           = Some (a\<lparr>spec := (spec a)\<lparr>roi := roi \<lparr>roi = Some roi10, voxel_size = Some (2, 2, 2)\<rparr>\<rparr>\<rparr>)"
    by fastforce
  then have 1: "map_option (\<lambda>a. roi (spec a)) (arrays restored_batch ''raw'') = Some (Some roi10)"
    by auto
  from t example_process m(2) have
    "\<exists>ps. points returned_batch ''pts'' = Some ps
       \<and> points restored_batch ''pts''
           = Some \<lparr>spec = (spec ps)\<lparr>roi := roi \<lparr>roi = Some roi10, voxel_size = None\<rparr>\<rparr>,
                   data = map (\<lambda>(point_id, location). (point_id, coord_sub location (1, 1, 1)))
                            (data ps)\<rparr>"
    by fastforce
  then have 2: "map_option (\<lambda>ps. (roi (spec ps), data ps)) (points restored_batch ''pts'')
        = Some (Some roi10, [(1, (4, 4, 4))])"
    by (auto simp: returned_batch_def)
  have p: "points returned_batch ''pts''
            = Some \<lparr>spec = \<lparr>roi = Some \<lparr>offset = (1, 1, 1), shape = (10, 10, 10)\<rparr>, voxel_size = None\<rparr>,
                    data = [(1, (5, 5, 5))]\<rparr>"
    by (simp add: returned_batch_def)
  have c: "contains (shift roi10 (1, 1, 1)) (5, 5, 5)"
    by (simp add: region_defs roi10_def)
  from t example_process have
    "(''pts'', \<lparr>roi = Some roi10, voxel_size = None\<rparr>) \<in> set (points_specs example_request)
       \<and> roi \<lparr>roi = Some roi10, voxel_size = None\<rparr> = Some roi10
       \<and> points returned_batch ''pts'' = Some ps \<and> (1, (5, 5, 5)) \<in> set (data ps)
       \<and> contains (shift roi10 (1, 1, 1)) (5, 5, 5) \<Longrightarrow>
     \<exists>ps'. points restored_batch ''pts'' = Some ps' \<and> roi (spec ps') = Some roi10
        \<and> (1, coord_sub (5, 5, 5) (1, 1, 1)) \<in> set (data ps')
        \<and> coord_le (0, 0, 0) (coord_sub (coord_sub (5, 5, 5) (1, 1, 1)) (offset roi10))
        \<and> coord_less (coord_sub (coord_sub (5, 5, 5) (1, 1, 1)) (offset roi10)) (shape roi10)"
    for ps
    by blast
  from this [of "\<lparr>spec = \<lparr>roi = Some \<lparr>offset = (1, 1, 1), shape = (10, 10, 10)\<rparr>, voxel_size = None\<rparr>,
                    data = [(1, (5, 5, 5))]\<rparr>"] m(2) p c
  have 3: "coord_le (0, 0, 0) (coord_sub (coord_sub (5, 5, 5) (1, 1, 1)) (offset roi10))
     \<and> coord_less (coord_sub (coord_sub (5, 5, 5) (1, 1, 1)) (offset roi10)) (shape roi10)"
    by auto
  from d k example_process 1 2 c 3 show ?thesis by blast
qed

section \<open>Normalize\<close>

lemma entries_uint8_range: "x \<in> set (entries (UInt8 ws)) \<Longrightarrow> 0 \<le> x \<and> x \<le> 255"
proof -
  assume "x \<in> set (entries (UInt8 ws))"
  then have "x \<in> (\<lambda>w. real (unat w)) ` set ws"
    by (simp only: entries.simps list.set_map)
  then obtain w :: "8 word" where x: "x = real (unat w)" by blast
  have "unat w < 2 ^ LENGTH(8)" by (rule unsigned_less)
  then have "unat w \<le> 255" by simp
  then have hi: "real (unat w) \<le> 255" by linarith
  have lo: "0 \<le> real (unat w)" by (rule of_nat_0_le_iff)
  from lo hi show ?thesis unfolding x by (rule conjI)
qed

lemma entries_scaled: "entries (scaled target a f) = map (\<lambda>x. x * f) (entries a)"
  by (simp add: scaled_def)

lemma automatic_factor_float32:
  "xs \<noteq> [] \<Longrightarrow>
   automatic_factor (Float32 xs) =
     (if \<forall>x \<in> set xs. 0 \<le> x \<and> x \<le> 1 then Inr 1 else Inl AssertionError)"
  by auto

text \<open>
  C9, at an input where it fails. The claim reads: for every batch, a \<open>float32\<close> array
  with all values in \<open>[0,1]\<close> is scaled by \<open>1.0\<close>. The values of an array without
  entries are all in \<open>[0,1]\<close>, but for it \<^verbatim>\<open>array.data.min()\<close> in the assertion
  of line 32 raises \<open>ValueError\<close>, and \<^verbatim>\<open>process\<close> does not return.
\<close>

theorem normalize_empty_counterexample:
  "factor auto_normalize = None
   \<and> arrays (raw_batch (Float32 [])) (array auto_normalize) = Some (raw_array (Float32 []))
   \<and> list_all (\<lambda>x. 0 \<le> x \<and> x \<le> 1) (entries (Float32 []))
   \<and> normalize_process auto_normalize (raw_batch (Float32 [])) = Inl ValueError"
  by (simp add: normalize_process_def auto_normalize_def raw_batch_def raw_array_def)

text \<open>
  For arrays that have entries the automatic factor is what C9 says. With
  \<open>factor = None\<close>, \<^verbatim>\<open>process\<close> replaces the data of the array by
  \<open>data.astype(dtype) * f\<close>: \<open>f = 1/255\<close> for \<open>uint8\<close> data, and all resulting
  values are in \<open>[0,1]\<close>; \<open>f = 1\<close> for \<open>float32\<close> data that has at least one entry
  and all entries in \<open>[0,1]\<close>, which leaves the values as they are; any other dtype
  raises \<open>RuntimeError\<close>.
\<close>

theorem normalize_automatic:
  assumes "factor self = None" and "arrays batch (array self) = Some a"
  shows "(\<forall>ws. data a = UInt8 ws \<longrightarrow>
            normalize_process self batch =
              Inr (batch\<lparr>arrays := (arrays batch)(array self \<mapsto>
                     a\<lparr>data := scaled (dtype self) (data a) (1 / 255)\<rparr>)\<rparr>)
            \<and> (\<forall>x \<in> set (entries (scaled (dtype self) (data a) (1 / 255))). 0 \<le> x \<and> x \<le> 1))
       \<and> (\<forall>xs. data a = Float32 xs \<and> xs \<noteq> [] \<and> (\<forall>x \<in> set xs. 0 \<le> x \<and> x \<le> 1) \<longrightarrow>
            normalize_process self batch =
              Inr (batch\<lparr>arrays := (arrays batch)(array self \<mapsto>
                     a\<lparr>data := scaled (dtype self) (data a) 1\<rparr>)\<rparr>)
            \<and> entries (scaled (dtype self) (data a) 1) = xs)
       \<and> (\<forall>name xs. data a = OtherDtype name xs \<longrightarrow>
            normalize_process self batch = Inl RuntimeError)"
proof (intro conjI allI impI)
  fix ws assume d: "data a = UInt8 ws"
  show "normalize_process self batch =
          Inr (batch\<lparr>arrays := (arrays batch)(array self \<mapsto>
                 a\<lparr>data := scaled (dtype self) (data a) (1 / 255)\<rparr>)\<rparr>)"
    by (simp add: normalize_process_def assms d)
  show "\<forall>x \<in> set (entries (scaled (dtype self) (data a) (1 / 255))). 0 \<le> x \<and> x \<le> 1"
  proof
    fix x assume "x \<in> set (entries (scaled (dtype self) (data a) (1 / 255)))"
    then obtain y where y: "y \<in> set (entries (UInt8 ws))" and x: "x = y * (1 / 255)"
      by (auto simp: entries_scaled d simp del: entries.simps)
    from entries_uint8_range [OF y] show "0 \<le> x \<and> x \<le> 1"
      by (simp add: x)
  qed
next
  fix xs assume d: "data a = Float32 xs \<and> xs \<noteq> [] \<and> (\<forall>x \<in> set xs. 0 \<le> x \<and> x \<le> 1)"
  then have f: "automatic_factor (data a) = Inr 1"
    by (simp add: automatic_factor_float32 del: automatic_factor.simps)
  show "normalize_process self batch =
          Inr (batch\<lparr>arrays := (arrays batch)(array self \<mapsto>
                 a\<lparr>data := scaled (dtype self) (data a) 1\<rparr>)\<rparr>)"
    by (simp add: normalize_process_def assms f)
  show "entries (scaled (dtype self) (data a) 1) = xs"
    using d by (simp add: entries_scaled)
next
  fix name xs assume "data a = OtherDtype name xs"
  then show "normalize_process self batch = Inl RuntimeError"
    by (simp add: normalize_process_def assms)
qed

theorem normalize_automatic_witness:
  "factor auto_normalize = None
   \<and> arrays (raw_batch (UInt8 [0, 128, 255])) (array auto_normalize)
        = Some (raw_array (UInt8 [0, 128, 255]))
   \<and> normalize_process auto_normalize (raw_batch (UInt8 [0, 128, 255]))
        = Inr (raw_batch (Float32 [0, 128 / 255, 1]))
   \<and> normalize_process auto_normalize (raw_batch (Float32 [0, 1 / 2, 1]))
        = Inr (raw_batch (Float32 [0, 1 / 2, 1]))
   \<and> normalize_process auto_normalize (raw_batch (OtherDtype ''int64'' [3]))
        = Inl RuntimeError"
proof -
  have f: "factor auto_normalize = None"
    by (simp add: auto_normalize_def)
  have a: "arrays (raw_batch d) (array auto_normalize) = Some (raw_array d)" for d
    by (simp add: raw_batch_def auto_normalize_def)
  have upd: "(raw_batch d)\<lparr>arrays := (arrays (raw_batch d))(array auto_normalize \<mapsto>
               (raw_array d)\<lparr>data := d'\<rparr>)\<rparr> = raw_batch d'" for d d'
    by (simp add: raw_batch_def raw_array_def auto_normalize_def)
  have d: "dtype auto_normalize = ''float32''"
    by (simp add: auto_normalize_def)
  have dr: "data (raw_array x) = x" for x :: ndarray
    by (simp add: raw_array_def)
  from normalize_automatic [OF f a, of "UInt8 [0, 128, 255]"]
  have "normalize_process auto_normalize (raw_batch (UInt8 [0, 128, 255]))
        = Inr (raw_batch (scaled ''float32'' (UInt8 [0, 128, 255]) (1 / 255)))"
    by (simp add: upd d dr)
  then have 1: "normalize_process auto_normalize (raw_batch (UInt8 [0, 128, 255]))
        = Inr (raw_batch (Float32 [0, 128 / 255, 1]))"
    by (simp add: scaled_def)
  from normalize_automatic [OF f a, of "Float32 [0, 1 / 2, 1]"]
  have "normalize_process auto_normalize (raw_batch (Float32 [0, 1 / 2, 1]))
        = Inr (raw_batch (scaled ''float32'' (Float32 [0, 1 / 2, 1]) 1))"
    by (simp add: upd d dr)
  then have 2: "normalize_process auto_normalize (raw_batch (Float32 [0, 1 / 2, 1]))
        = Inr (raw_batch (Float32 [0, 1 / 2, 1]))"
    by (simp add: scaled_def)
  from normalize_automatic [OF f a, of "OtherDtype ''int64'' [3]"]
  have 3: "normalize_process auto_normalize (raw_batch (OtherDtype ''int64'' [3])) = Inl RuntimeError"
    by (simp add: dr)
  from f a 1 2 3 show ?thesis by simp
qed

end
